theory Spec2Isabelle
  imports Main "HOL-Library.Word"
begin

section \<open>Data model\<close>

text \<open>
  The program is \<^verbatim>\<open>transcripcion.py\<close>: one function, \<^verbatim>\<open>transcribir_mp3_a_txt\<close>, and a
  command-line entry point. Everything it does is an effect on the file system or a call
  into the \<^verbatim>\<open>whisper\<close> library, so the model threads a world through the function and
  returns exceptions as values.

  Path names, model names and command-line words are \<^typ>\<open>string\<close>s (a \<^typ>\<open>char\<close> read as a
  code point below 256). The transcript is a list of arbitrary code points, because it is the
  one string whose encoding reaches the disk.
\<close>

type_synonym texto = "nat list"
type_synonym bytes = "8 word list"
type_synonym location = "string list"

text \<open>
  A \<^verbatim>\<open>pathlib.PosixPath\<close> after parsing: its root (empty, one slash, or two slashes, which
  pathlib keeps apart) and its components without the root. Parsing drops empty components
  and \<^verbatim>\<open>.\<close>, and keeps \<^verbatim>\<open>..\<close>.
\<close>

record ppath =
  root :: string
  parts :: "string list"

text \<open>
  The file system is a tree of directories and regular files keyed by canonical absolute
  location (the component names from the root). Symbolic links are outside the model.
\<close>

datatype node = File bytes | Dir

text \<open>
  The reasons for which the system may refuse an operation whatever the shape of the tree:
  permissions, a read-only or full disk, a quota, a failing device, a name the file system
  does not take, exhausted memory or descriptors, a file that is busy or too large.
\<close>

datatype refusal =
    EACCES | EPERM | EROFS | ENOSPC | EDQUOT | EMLINK | EIO | EINVAL | ENOMEM | ENFILE
  | EMFILE | EBUSY | ETXTBSY | EFBIG

datatype errno = ENOENT | EEXIST | ENOTDIR | EISDIR | ENAMETOOLONG | Refused refusal

text \<open>
  What the system can be asked for: to look a name up in a directory, to create a node, to
  truncate a regular file, to store the content of an open file.
\<close>

datatype access = Search location | Create location | Truncate location | Store location

text \<open>What the program does to the outside, in the order it does it.\<close>

datatype 'v event =
    Ev_mkdir location
  | Ev_creat location
  | Ev_write location bytes
  | Ev_load_model string
  | Ev_transcribe string "string option" "(string \<times> 'v) list"
  | Ev_print string

text \<open>
  The world: the tree, the working directory, what the system refuses, how many bytes of a
  refused store reach the file all the same, and the log of events.
\<close>

record 'v world =
  files :: "location \<Rightarrow> node option"
  cwd :: location
  refuses :: "access \<Rightarrow> refusal option"
  torn :: nat
  events :: "'v event list"

datatype path_error = Invalid_suffix string | Empty_name ppath

text \<open>
  How a call of the \<^verbatim>\<open>os\<close> module fails: Python itself rejects a path with a NUL character
  (a ValueError), anything else is the system's answer (an OSError).
\<close>

datatype call_error = Embedded_null | Os errno

text \<open>
  The exceptions that can leave \<^verbatim>\<open>transcribir_mp3_a_txt\<close>. \<open>FileNotFoundError\<close> and
  \<open>ValueError\<close> are the two the source raises itself, with their messages (\<open>ValueError\<close> is
  also what Python raises for a NUL character in a path); \<open>OSError\<close> is what the operating
  system answers to \<^verbatim>\<open>stat\<close>, \<^verbatim>\<open>mkdir\<close> and \<^verbatim>\<open>open\<close> (Python names some errno values:
  FileNotFoundError, FileExistsError, NotADirectoryError, IsADirectoryError,
  PermissionError); \<open>External\<close> wraps, untouched, whatever the whisper library raised.
\<close>

datatype 'x error =
    FileNotFoundError string
  | ValueError string
  | PathValueError path_error
  | TypeError string
  | OSError errno
  | UnicodeEncodeError
  | External 'x

text \<open>
  The two entry points of the whisper library the program uses. They are parameters: the
  library is not part of the repository. The result of \<^verbatim>\<open>transcribe\<close> is a dictionary, of
  which the program reads the key \<^verbatim>\<open>text\<close> only. What the library itself does to the
  file system (fetching a model, say) is not tracked.
\<close>

record ('h, 'v, 'x) whisper =
  load_model :: "string \<Rightarrow> 'x + 'h"
  transcribe :: "'h \<Rightarrow> string \<Rightarrow> string option \<Rightarrow> (string \<times> 'v) list \<Rightarrow> 'x + (string \<rightharpoonup> texto)"

section \<open>Pure paths\<close>

text \<open>\<^verbatim>\<open>str.split('/')\<close>.\<close>

fun split_sep :: "string \<Rightarrow> string list" where
  "split_sep [] = [[]]"
| "split_sep (c # cs) =
     (if c = CHR ''/'' then [] # split_sep cs
      else (case split_sep cs of [] \<Rightarrow> [[c]] | x # xs \<Rightarrow> (c # x) # xs))"

text \<open>
  \<^verbatim>\<open>splitroot\<close> of the POSIX flavour: the leading slashes are the root, which is two slashes
  when there are exactly two of them and one slash otherwise.
\<close>

definition splitroot :: "string \<Rightarrow> string \<times> string" where
  "splitroot part =
     (if part \<noteq> [] \<and> hd part = CHR ''/'' then
        let stripped_part = dropWhile (\<lambda>c. c = CHR ''/'') part
        in if length part - length stripped_part = 2 then (''//'', stripped_part)
           else (''/'', stripped_part)
      else ([], part))"

text \<open>\<^verbatim>\<open>Path(s)\<close> for a string.\<close>

definition Path :: "string \<Rightarrow> ppath" where
  "Path s =
     (case splitroot s of
        (r, rel) \<Rightarrow> \<lparr>root = r, parts = filter (\<lambda>x. x \<noteq> [] \<and> x \<noteq> ''.'') (split_sep rel)\<rparr>)"

text \<open>\<^verbatim>\<open>is_absolute()\<close>: the path has a root.\<close>

definition absolute :: "ppath \<Rightarrow> bool" where
  "absolute p \<longleftrightarrow> root p \<noteq> []"

fun join_sep :: "string list \<Rightarrow> string" where
  "join_sep [] = []"
| "join_sep [x] = x"
| "join_sep (x # y # ys) = x @ ''/'' @ join_sep (y # ys)"

text \<open>\<^verbatim>\<open>str(p)\<close>.\<close>

definition str_of :: "ppath \<Rightarrow> string" where
  "str_of p =
     (if absolute p then root p @ join_sep (parts p)
      else if parts p = [] then ''.'' else join_sep (parts p))"

definition name :: "ppath \<Rightarrow> string" where
  "name p = (case parts p of [] \<Rightarrow> [] | _ \<Rightarrow> last (parts p))"

text \<open>\<^verbatim>\<open>s.rfind(c)\<close>, with \<open>None\<close> for \<^verbatim>\<open>-1\<close>.\<close>

fun rfind :: "'a \<Rightarrow> 'a list \<Rightarrow> nat option" where
  "rfind c [] = None"
| "rfind c (x # xs) =
     (case rfind c xs of
        Some i \<Rightarrow> Some (Suc i)
      | None \<Rightarrow> if x = c then Some 0 else None)"

text \<open>
  The suffix of the name, as pathlib computes it up to Python 3.13: from the last dot on,
  unless that dot opens or closes the name.
\<close>

definition suffix :: "ppath \<Rightarrow> string" where
  "suffix p =
     (case rfind (CHR ''.'') (name p) of
        None \<Rightarrow> []
      | Some i \<Rightarrow> if 0 < i \<and> i + 1 < length (name p) then drop i (name p) else [])"

definition with_suffix :: "ppath \<Rightarrow> string \<Rightarrow> path_error + ppath" where
  "with_suffix p suf =
     (if CHR ''/'' \<in> set suf then Inl (Invalid_suffix suf)
      else if (suf \<noteq> [] \<and> hd suf \<noteq> CHR ''.'') \<or> suf = ''.'' then Inl (Invalid_suffix suf)
      else if name p = [] then Inl (Empty_name p)
      else
        let old_suffix = suffix p;
            name' = (if old_suffix = [] then name p @ suf
                     else take (length (name p) - length old_suffix) (name p) @ suf)
        in Inr (p\<lparr>parts := butlast (parts p) @ [name']\<rparr>))"

text \<open>The logical parent: the root and the empty relative path are their own parents.\<close>

definition parent :: "ppath \<Rightarrow> ppath" where
  "parent p = p\<lparr>parts := butlast (parts p)\<rparr>"

section \<open>The file system\<close>

text \<open>
  Where the kernel starts: at the root for a path with a root (two slashes are the root as
  well), in the working directory otherwise.
\<close>

definition start :: "'v world \<Rightarrow> ppath \<Rightarrow> location" where
  "start w p = (if absolute p then [] else cwd w)"

definition step :: "location \<Rightarrow> string \<Rightarrow> location" where
  "step cur c = (if c = ''..'' then butlast cur else cur @ [c])"

text \<open>
  The length in bytes of a name as the system sees it (\<^verbatim>\<open>os.fsencode\<close>, UTF-8): one byte for
  a code point below 128, two for one from 128 to 255.
\<close>

definition fsencode_len :: "string \<Rightarrow> nat" where
  "fsencode_len s = length s + length (filter (\<lambda>c. 128 \<le> (of_char c :: nat)) s)"

definition NAME_MAX :: nat where
  "NAME_MAX = 255"

definition PATH_MAX :: nat where
  "PATH_MAX = 4096"

text \<open>A NUL character in the path, which Python rejects before it calls the system.\<close>

definition null_in :: "ppath \<Rightarrow> bool" where
  "null_in p \<longleftrightarrow> CHR 0x00 \<in> set (str_of p)"

text \<open>
  Path resolution by the kernel: every component is looked up in a directory, so the
  location reached so far has to be one, the system has to allow the search, and the name
  looked up may not be longer than \<open>NAME_MAX\<close> bytes. The location of the last component need
  not exist.
\<close>

fun namei ::
  "(location \<Rightarrow> node option) \<Rightarrow> (access \<Rightarrow> refusal option) \<Rightarrow> location \<Rightarrow> string list \<Rightarrow>
   errno + location" where
  "namei f r cur [] = Inr cur"
| "namei f r cur (c # cs) =
     (case f cur of
        None \<Rightarrow> Inl ENOENT
      | Some (File _) \<Rightarrow> Inl ENOTDIR
      | Some Dir \<Rightarrow>
          (case r (Search cur) of
             Some e \<Rightarrow> Inl (Refused e)
           | None \<Rightarrow>
               if NAME_MAX < fsencode_len c then Inl ENAMETOOLONG
               else namei f r (step cur c) cs))"

text \<open>A path of \<open>PATH_MAX\<close> bytes or more is refused before any component is looked at.\<close>

definition lookup :: "'v world \<Rightarrow> ppath \<Rightarrow> errno + location" where
  "lookup w p =
     (if PATH_MAX \<le> fsencode_len (str_of p) then Inl ENAMETOOLONG
      else namei (files w) (refuses w) (start w p) (parts p))"

definition stat :: "'v world \<Rightarrow> ppath \<Rightarrow> call_error + node" where
  "stat w p =
     (if null_in p then Inl Embedded_null
      else
        case lookup w p of
          Inl e \<Rightarrow> Inl (Os e)
        | Inr t \<Rightarrow> (case files w t of None \<Rightarrow> Inl (Os ENOENT) | Some n \<Rightarrow> Inr n))"

text \<open>
  The errors \<^verbatim>\<open>is_file\<close> and \<^verbatim>\<open>is_dir\<close> take for the answer no (pathlib's \<^verbatim>\<open>_ignore_error\<close>; its
  other two values, EBADF and ELOOP, do not arise without descriptors and symbolic links).
\<close>

definition ignore_error :: "errno \<Rightarrow> bool" where
  "ignore_error e \<longleftrightarrow> e = ENOENT \<or> e = ENOTDIR"

text \<open>
  \<^verbatim>\<open>Path.is_file()\<close> and \<^verbatim>\<open>Path.is_dir()\<close> as pathlib writes them up to Python 3.13: the
  ValueError of a NUL character and the ignored errors give False, any other OSError is
  raised again.
\<close>

definition is_file :: "'v world \<Rightarrow> ppath \<Rightarrow> errno + bool" where
  "is_file w p =
     (case stat w p of
        Inr (File _) \<Rightarrow> Inr True
      | Inr Dir \<Rightarrow> Inr False
      | Inl Embedded_null \<Rightarrow> Inr False
      | Inl (Os e) \<Rightarrow> if ignore_error e then Inr False else Inl e)"

definition is_dir :: "'v world \<Rightarrow> ppath \<Rightarrow> errno + bool" where
  "is_dir w p =
     (case stat w p of
        Inr Dir \<Rightarrow> Inr True
      | Inr (File _) \<Rightarrow> Inr False
      | Inl Embedded_null \<Rightarrow> Inr False
      | Inl (Os e) \<Rightarrow> if ignore_error e then Inr False else Inl e)"

definition log :: "'v event \<Rightarrow> 'v world \<Rightarrow> 'v world" where
  "log e w = w\<lparr>events := events w @ [e]\<rparr>"

text \<open>
  \<^verbatim>\<open>os.mkdir\<close>: the system call, which creates one directory. An existing node is reported
  before the system looks at whether it would allow the creation.
\<close>

definition os_mkdir :: "'v world \<Rightarrow> ppath \<Rightarrow> (call_error + unit) \<times> 'v world" where
  "os_mkdir w p =
     (if null_in p then (Inl Embedded_null, w)
      else
        case lookup w p of
          Inl e \<Rightarrow> (Inl (Os e), w)
        | Inr t \<Rightarrow>
            (case files w t of
               Some _ \<Rightarrow> (Inl (Os EEXIST), w)
             | None \<Rightarrow>
                 (case refuses w (Create t) of
                    Some e \<Rightarrow> (Inl (Os (Refused e)), w)
                  | None \<Rightarrow> (Inr (), log (Ev_mkdir t) (w\<lparr>files := (files w)(t \<mapsto> Dir)\<rparr>)))))"

text \<open>
  \<^verbatim>\<open>Path.mkdir(parents, exist_ok)\<close> as pathlib writes it: try the system call; on ENOENT
  create the parent with \<^verbatim>\<open>parents=True, exist_ok=True\<close> and retry without \<^verbatim>\<open>parents\<close>; on any
  other OSError give up unless \<^verbatim>\<open>exist_ok\<close> holds and the path is a directory, where an error
  of \<^verbatim>\<open>is_dir\<close> replaces the first one. The ValueError of a NUL character is not an OSError
  and passes through.
\<close>

function mkdir :: "'v world \<Rightarrow> ppath \<Rightarrow> bool \<Rightarrow> bool \<Rightarrow> (call_error + unit) \<times> 'v world" where
  "mkdir w p parents exist_ok =
     (case os_mkdir w p of
        (Inr u, w') \<Rightarrow> (Inr u, w')
      | (Inl ce, _) \<Rightarrow>
          (case ce of
             Embedded_null \<Rightarrow> (Inl Embedded_null, w)
           | Os e \<Rightarrow>
               if e = ENOENT then
                 (if \<not> parents \<or> parent p = p then (Inl (Os e), w)
                  else (case mkdir w (parent p) True True of
                          (Inl e', w1) \<Rightarrow> (Inl e', w1)
                        | (Inr _, w1) \<Rightarrow> mkdir w1 p False exist_ok))
               else if \<not> exist_ok then (Inl (Os e), w)
               else (case is_dir w p of
                       Inl e' \<Rightarrow> (Inl (Os e'), w)
                     | Inr b \<Rightarrow> if b then (Inr (), w) else (Inl (Os e), w))))"
  by pat_completeness auto

termination mkdir
proof (relation "measures [\<lambda>(w, p, ps, ex). length (parts p), \<lambda>(w, p, ps, ex). if ps then 1 else 0]")
  show "wf (measures [\<lambda>(w :: 'v world, p, ps, ex). length (parts p),
                      \<lambda>(w, p, ps, ex). if ps then 1 else (0 :: nat)])"
    by simp
next
  fix w :: "'v world" and p :: ppath and parents exist_ok :: bool
  assume "\<not> (\<not> parents \<or> parent p = p)"
  then have "parts p \<noteq> []"
    by (auto simp: parent_def)
  then have "length (parts (parent p)) < length (parts p)"
    by (simp add: parent_def)
  then show "((w, parent p, True, True), (w, p, parents, exist_ok))
      \<in> measures [\<lambda>(w, p, ps, ex). length (parts p), \<lambda>(w, p, ps, ex). if ps then 1 else 0]"
    by simp
next
  fix w w1 :: "'v world" and p :: ppath and parents exist_ok :: bool
  assume "\<not> (\<not> parents \<or> parent p = p)"
  then show "((w1, p, False, exist_ok), (w, p, parents, exist_ok))
      \<in> measures [\<lambda>(w, p, ps, ex). length (parts p), \<lambda>(w, p, ps, ex). if ps then 1 else 0]"
    by simp
qed

declare mkdir.simps [simp del]

text \<open>
  \<^verbatim>\<open>Path.resolve()\<close>, not strict: make the path absolute from the working directory and
  fold \<^verbatim>\<open>..\<close> away, whether or not the components exist. The root of the result is one
  slash.
\<close>

definition norm :: "location \<Rightarrow> string list \<Rightarrow> location" where
  "norm cur cs = foldl step cur cs"

definition resolve :: "'v world \<Rightarrow> ppath \<Rightarrow> ppath" where
  "resolve w p = \<lparr>root = ''/'', parts = norm (start w p) (parts p)\<rparr>"

section \<open>Strings\<close>

text \<open>
  The code points \<^verbatim>\<open>str.isspace\<close> accepts, which are the ones \<^verbatim>\<open>str.strip()\<close> removes
  from both ends.
\<close>

definition isspace :: "nat \<Rightarrow> bool" where
  "isspace c \<longleftrightarrow>
     (0x09 \<le> c \<and> c \<le> 0x0D) \<or> (0x1C \<le> c \<and> c \<le> 0x20) \<or> c = 0x85 \<or> c = 0xA0 \<or>
     c = 0x1680 \<or> (0x2000 \<le> c \<and> c \<le> 0x200A) \<or> c = 0x2028 \<or> c = 0x2029 \<or>
     c = 0x202F \<or> c = 0x205F \<or> c = 0x3000"

definition strip :: "texto \<Rightarrow> texto" where
  "strip s = rev (dropWhile isspace (rev (dropWhile isspace s)))"

text \<open>
  The strict UTF-8 codec: one to four bytes per code point, no byte order mark; a
  surrogate (and anything beyond U+10FFFF) cannot be encoded.
\<close>

definition utf8_char :: "nat \<Rightarrow> bytes option" where
  "utf8_char c =
     (if c < 0x80 then Some [of_nat c]
      else if c < 0x800 then Some [of_nat (0xC0 + c div 0x40), of_nat (0x80 + c mod 0x40)]
      else if 0xD800 \<le> c \<and> c \<le> 0xDFFF then None
      else if c < 0x10000 then
        Some [of_nat (0xE0 + c div 0x1000), of_nat (0x80 + c div 0x40 mod 0x40),
              of_nat (0x80 + c mod 0x40)]
      else if c < 0x110000 then
        Some [of_nat (0xF0 + c div 0x40000), of_nat (0x80 + c div 0x1000 mod 0x40),
              of_nat (0x80 + c div 0x40 mod 0x40), of_nat (0x80 + c mod 0x40)]
      else None)"

fun utf8_encode :: "texto \<Rightarrow> bytes option" where
  "utf8_encode [] = Some []"
| "utf8_encode (c # cs) =
     (case utf8_char c of
        None \<Rightarrow> None
      | Some b \<Rightarrow> (case utf8_encode cs of None \<Rightarrow> None | Some bs \<Rightarrow> Some (b @ bs)))"

text \<open>
  \<^verbatim>\<open>str.lower()\<close> on code points below 256: the ASCII capitals and the Latin-1 capitals
  (U+00C0 to U+00DE without the multiplication sign) move up by 32.
\<close>

definition lower_char :: "char \<Rightarrow> char" where
  "lower_char c =
     (let n = (of_char c :: nat)
      in if (65 \<le> n \<and> n \<le> 90) \<or> (192 \<le> n \<and> n \<le> 222 \<and> n \<noteq> 215) then char_of (n + 32) else c)"

definition lower :: "string \<Rightarrow> string" where
  "lower s = map lower_char s"

section \<open>Writing the transcript\<close>

text \<open>
  \<^verbatim>\<open>open(p, 'w')\<close>: creates the file or truncates it; fails on a directory, and where the
  system refuses the creation or the truncation. Returns the location of the open file.
\<close>

definition os_open_w :: "'v world \<Rightarrow> ppath \<Rightarrow> (call_error + location) \<times> 'v world" where
  "os_open_w w p =
     (if null_in p then (Inl Embedded_null, w)
      else
        case lookup w p of
          Inl e \<Rightarrow> (Inl (Os e), w)
        | Inr t \<Rightarrow>
            (case files w t of
               Some Dir \<Rightarrow> (Inl (Os EISDIR), w)
             | n \<Rightarrow>
                 (case refuses w (if n = None then Create t else Truncate t) of
                    Some e \<Rightarrow> (Inl (Os (Refused e)), w)
                  | None \<Rightarrow> (Inr t, log (Ev_creat t) (w\<lparr>files := (files w)(t \<mapsto> File [])\<rparr>)))))"

text \<open>The exception Python raises for a failed call.\<close>

definition raised :: "call_error \<Rightarrow> 'x error" where
  "raised ce = (case ce of Embedded_null \<Rightarrow> ValueError ''embedded null byte'' | Os e \<Rightarrow> OSError e)"

text \<open>
  \<^verbatim>\<open>Path.write_text(data, encoding="utf-8")\<close>: open for writing, encode, write, close. The
  file is already truncated when the encoder runs. Where the system refuses to store the
  content (a full disk, say), the file is left with the part that got through. Returns the
  number of characters written.
\<close>

definition write_text :: "'v world \<Rightarrow> ppath \<Rightarrow> texto \<Rightarrow> ('x error + nat) \<times> 'v world" where
  "write_text w p data =
     (case os_open_w w p of
        (Inl e, w1) \<Rightarrow> (Inl (raised e), w1)
      | (Inr t, w1) \<Rightarrow>
          (case utf8_encode data of
             None \<Rightarrow> (Inl UnicodeEncodeError, w1)
           | Some bs \<Rightarrow>
               (case refuses w1 (Store t) of
                  Some e \<Rightarrow>
                    (Inl (OSError (Refused e)),
                     w1\<lparr>files := (files w1)(t \<mapsto> File (take (torn w1) bs))\<rparr>)
                | None \<Rightarrow>
                    (Inr (length data),
                     log (Ev_write t bs) (w1\<lparr>files := (files w1)(t \<mapsto> File bs)\<rparr>)))))"

section \<open>The program\<close>

definition msg_no_encontrado :: "string" where
  "msg_no_encontrado = ''No se encontr'' @ [CHR 0xF3] @ '' el archivo MP3: ''"

definition msg_vacia :: "string" where
  "msg_vacia = ''La transcripci'' @ [CHR 0xF3] @ ''n result'' @ [CHR 0xF3] @ '' vac'' @ [CHR 0xED] @ ''a.''"

definition msg_guardada :: "string" where
  "msg_guardada = ''Transcripci'' @ [CHR 0xF3] @ ''n guardada en: ''"

text \<open>Lines 49 to 52: the destination, given or derived from the source.\<close>

definition destino :: "ppath \<Rightarrow> ppath option \<Rightarrow> path_error + ppath" where
  "destino ruta_mp3 ruta_txt =
     (case ruta_txt of
        None \<Rightarrow> with_suffix ruta_mp3 ''.txt''
      | Some r \<Rightarrow> Inr r)"

text \<open>Line 64: \<^verbatim>\<open>resultado.get("text", "").strip()\<close>.\<close>

definition texto_de :: "(string \<rightharpoonup> texto) \<Rightarrow> texto" where
  "texto_de resultado = strip (case resultado ''text'' of None \<Rightarrow> [] | Some t \<Rightarrow> t)"

text \<open>
  \<^verbatim>\<open>transcribir_mp3_a_txt(ruta_mp3, ruta_txt, modelo, lenguaje=..., **opciones_transcripcion)\<close>,
  lines 45 to 70, statement by statement. An OSError that \<^verbatim>\<open>is_file\<close> raises at line 46
  leaves the function as it is. The call of line 60 passes \<^verbatim>\<open>language\<close> by keyword next to
  the caller's options, so Python raises TypeError there, before the library is entered,
  when the options hold that key as well.
\<close>

definition transcribir_mp3_a_txt ::
  "('h, 'v, 'x) whisper \<Rightarrow> 'v world \<Rightarrow> ppath \<Rightarrow> ppath option \<Rightarrow> string \<Rightarrow> string option \<Rightarrow>
   (string \<times> 'v) list \<Rightarrow> ('x error + ppath) \<times> 'v world" where
  "transcribir_mp3_a_txt wh w ruta_mp3 ruta_txt modelo lenguaje opciones_transcripcion =
     (case is_file w ruta_mp3 of
        Inl e \<Rightarrow> (Inl (OSError e), w)
      | Inr found \<Rightarrow>
          if \<not> found then
            (Inl (FileNotFoundError (msg_no_encontrado @ str_of ruta_mp3)), w)
          else
            case destino ruta_mp3 ruta_txt of
              Inl pe \<Rightarrow> (Inl (PathValueError pe), w)
            | Inr ruta_txt' \<Rightarrow>
                (case mkdir w (parent ruta_txt') True True of
                   (Inl e, w1) \<Rightarrow> (Inl (raised e), w1)
                 | (Inr _, w1) \<Rightarrow>
                     let w2 = log (Ev_load_model modelo) w1 in
                     (case load_model wh modelo of
                        Inl x \<Rightarrow> (Inl (External x), w2)
                      | Inr modelo_whisper \<Rightarrow>
                          if ''language'' \<in> fst ` set opciones_transcripcion then
                            (Inl (TypeError ''language''), w2)
                          else
                            let w3 = log (Ev_transcribe (str_of ruta_mp3) lenguaje
                                            opciones_transcripcion) w2 in
                            (case transcribe wh modelo_whisper (str_of ruta_mp3) lenguaje
                                    opciones_transcripcion of
                               Inl x \<Rightarrow> (Inl (External x), w3)
                             | Inr resultado \<Rightarrow>
                                 let texto = texto_de resultado
                                 in if texto = [] then (Inl (ValueError msg_vacia), w3)
                                    else
                                      (case write_text w3 ruta_txt' texto of
                                         (Inl e, w4) \<Rightarrow> (Inl e, w4)
                                       | (Inr _, w4) \<Rightarrow> (Inr (resolve w4 ruta_txt'), w4))))))"

text \<open>
  The command line, lines 73 to 106. \<open>argv\<close> holds the words argparse found: the positional
  \<^verbatim>\<open>audio\<close>, and \<^verbatim>\<open>--salida\<close>, \<^verbatim>\<open>--modelo\<close>, \<^verbatim>\<open>--lenguaje\<close> when given. argparse applies the
  defaults and turns \<^verbatim>\<open>audio\<close> and \<^verbatim>\<open>--salida\<close> into paths.
\<close>

record argv =
  argv_audio :: string
  argv_salida :: "string option"
  argv_modelo :: "string option"
  argv_lenguaje :: "string option"

record args =
  args_audio :: ppath
  args_salida :: "ppath option"
  args_modelo :: string
  args_lenguaje :: string

definition parse_args :: "argv \<Rightarrow> args" where
  "parse_args a =
     \<lparr>args_audio = Path (argv_audio a),
      args_salida = map_option Path (argv_salida a),
      args_modelo = (case argv_modelo a of None \<Rightarrow> ''base'' | Some m \<Rightarrow> m),
      args_lenguaje = (case argv_lenguaje a of None \<Rightarrow> ''es'' | Some l \<Rightarrow> l)\<rparr>"

text \<open>Line 98: what the command line hands over as the language hint.\<close>

definition lenguaje_cli :: "args \<Rightarrow> string option" where
  "lenguaje_cli a =
     (if lower (args_lenguaje a) = ''none'' then None else Some (args_lenguaje a))"

definition main ::
  "('h, 'v, 'x) whisper \<Rightarrow> 'v world \<Rightarrow> argv \<Rightarrow> ('x error + unit) \<times> 'v world" where
  "main wh w a =
     (let args = parse_args a;
          lenguaje = lenguaje_cli args
      in case transcribir_mp3_a_txt wh w (args_audio args) (args_salida args) (args_modelo args)
                lenguaje [] of
           (Inl e, w') \<Rightarrow> (Inl e, w')
         | (Inr ruta_generada, w') \<Rightarrow>
             (Inr (), log (Ev_print (msg_guardada @ str_of ruta_generada)) w'))"

section \<open>Vocabulary of the statements\<close>

text \<open>
  The directories the kernel searches on the way along a path, and with the location of
  the path itself added: the locations of the path's lexical ancestors, from its starting
  directory down to the path.
\<close>

definition walked :: "'v world \<Rightarrow> ppath \<Rightarrow> location list" where
  "walked w p = map (\<lambda>k. norm (start w p) (take k (parts p))) [0..<length (parts p)]"

definition prefix_locs :: "'v world \<Rightarrow> ppath \<Rightarrow> location list" where
  "prefix_locs w p =
     map (\<lambda>k. norm (start w p) (take k (parts p))) [0..<Suc (length (parts p))]"

definition regular :: "node option \<Rightarrow> bool" where
  "regular n = (case n of Some (File _) \<Rightarrow> True | _ \<Rightarrow> False)"

text \<open>
  The system takes the path and lets it be walked: it has no NUL character, it is shorter
  than \<open>PATH_MAX\<close> bytes, none of its components is longer than \<open>NAME_MAX\<close> bytes, and the
  search of no directory on the way is refused.
\<close>

definition passable :: "'v world \<Rightarrow> ppath \<Rightarrow> bool" where
  "passable w p \<longleftrightarrow>
     \<not> null_in p \<and> fsencode_len (str_of p) < PATH_MAX \<and>
     list_all (\<lambda>c. fsencode_len c \<le> NAME_MAX) (parts p) \<and>
     list_all (\<lambda>t. refuses w (Search t) = None) (walked w p)"

text \<open>
  The path can be made a directory: it can be walked, no regular file sits where the path
  or one of its ancestors should be a directory, and the creation of none of those that are
  missing is refused.
\<close>

definition creatable :: "'v world \<Rightarrow> ppath \<Rightarrow> bool" where
  "creatable w p \<longleftrightarrow>
     passable w p \<and>
     list_all (\<lambda>t. case files w t of
                     None \<Rightarrow> refuses w (Create t) = None
                   | Some (File _) \<Rightarrow> False
                   | Some Dir \<Rightarrow> True) (prefix_locs w p)"

text \<open>
  The destination can be written: its parent can be made a directory, the destination
  can be walked, it is not a directory, its location is not the location of one of its own
  ancestors (as for \<^verbatim>\<open>a/b/../b\<close>), and the system refuses neither its creation (where it is
  missing) or truncation (where it is a file) nor the storing of its content.
\<close>

definition writable :: "'v world \<Rightarrow> ppath \<Rightarrow> bool" where
  "writable w p =
     (let t = norm (start w p) (parts p)
      in creatable w (parent p) \<and> passable w p \<and> t \<notin> set (prefix_locs w (parent p)) \<and>
         (case files w t of
            None \<Rightarrow> refuses w (Create t) = None
          | Some (File _) \<Rightarrow> refuses w (Truncate t) = None
          | Some Dir \<Rightarrow> False) \<and>
         refuses w (Store t) = None)"

text \<open>
  The second world is the first one after creating the directories \<open>ds\<close>, in that order,
  none of which existed and the creation of none of which is refused: nothing else differs.
\<close>

definition made_dirs :: "'v world \<Rightarrow> location list \<Rightarrow> 'v world \<Rightarrow> bool" where
  "made_dirs w ds w' \<longleftrightarrow>
     cwd w' = cwd w \<and> refuses w' = refuses w \<and> torn w' = torn w \<and>
     events w' = events w @ map Ev_mkdir ds \<and>
     (\<forall>t. files w' t = (if t \<in> set ds then Some Dir else files w t)) \<and>
     (\<forall>d\<in>set ds. files w d = None \<and> refuses w (Create d) = None)"

text \<open>The spellings of \<^verbatim>\<open>none\<close> in any letter case.\<close>

definition none_any_case :: "string list" where
  "none_any_case =
     [[a, b, c, d]. a \<leftarrow> ''nN'', b \<leftarrow> ''oO'', c \<leftarrow> ''nN'', d \<leftarrow> ''eE'']"

text \<open>The events a run added to the log.\<close>

definition new_events :: "'v world \<Rightarrow> 'v world \<Rightarrow> 'v event list" where
  "new_events w w' = drop (length (events w)) (events w')"

section \<open>A concrete world\<close>

text \<open>
  A home directory with an audio file \<^verbatim>\<open>audio/nota.mp3\<close>, an old transcript
  \<^verbatim>\<open>audio/vieja.txt\<close> beside \<^verbatim>\<open>audio/vieja.mp3\<close>, a directory \<^verbatim>\<open>salida\<close> and a regular file
  \<^verbatim>\<open>f\<close>. The system refuses nothing.
\<close>

definition ej_files :: "location \<Rightarrow> node option" where
  "ej_files =
     [[] \<mapsto> Dir,
      [''home''] \<mapsto> Dir,
      [''home'', ''u''] \<mapsto> Dir,
      [''home'', ''u'', ''audio''] \<mapsto> Dir,
      [''home'', ''u'', ''audio'', ''nota.mp3''] \<mapsto> File [0x49, 0x44, 0x33],
      [''home'', ''u'', ''audio'', ''vieja.mp3''] \<mapsto> File [0x49, 0x44, 0x33],
      [''home'', ''u'', ''audio'', ''vieja.txt''] \<mapsto> File [0x76, 0x69, 0x65, 0x6A, 0x6F],
      [''home'', ''u'', ''salida''] \<mapsto> Dir,
      [''home'', ''u'', ''f''] \<mapsto> File []]"

definition ej_mundo :: "unit world" where
  "ej_mundo =
     \<lparr>files = ej_files, cwd = [''home'', ''u''], refuses = (\<lambda>a. None), torn = 0, events = []\<rparr>"

text \<open>A library that loads any model and answers every audio with the given result.\<close>

definition ej_whisper :: "string + (string \<rightharpoonup> texto) \<Rightarrow> (unit, unit, string) whisper" where
  "ej_whisper r = \<lparr>load_model = (\<lambda>m. Inr ()), transcribe = (\<lambda>h a l k. r)\<rparr>"

text \<open>A library that knows no model.\<close>

definition ej_whisper_sin_modelo :: "(unit, unit, string) whisper" where
  "ej_whisper_sin_modelo =
     \<lparr>load_model = (\<lambda>m. Inl (''modelo desconocido: '' @ m)), transcribe = (\<lambda>h a l k. Inr Map.empty)\<rparr>"

text \<open>
  A transcript with a blank before and a newline after the word, whose fourth code point
  is U+00F1; stripped, it is five code points and six bytes in UTF-8.
\<close>

definition ej_texto :: texto where
  "ej_texto = [0x20, 0x53, 0x65, 0xF1, 0x6F, 0x72, 0x0A]"

definition ej_bytes :: bytes where
  "ej_bytes = [0x53, 0x65, 0xC3, 0xB1, 0x6F, 0x72]"

section \<open>Path resolution\<close>

lemma norm_Nil [simp]: "norm cur [] = cur"
  by (simp add: norm_def)

lemma norm_Cons [simp]: "norm cur (c # cs) = norm (step cur c) cs"
  by (simp add: norm_def)

lemma norm_snoc [simp]: "norm cur (cs @ [c]) = step (norm cur cs) c"
  by (simp add: norm_def)

lemma namei_Inr_iff:
  "namei f r cur cs = Inr t \<longleftrightarrow>
     t = norm cur cs \<and>
     (\<forall>k<length cs. f (norm cur (take k cs)) = Some Dir \<and>
                    r (Search (norm cur (take k cs))) = None \<and>
                    fsencode_len (cs ! k) \<le> NAME_MAX)"
proof (induction cs arbitrary: cur)
  case Nil
  show ?case by auto
next
  case (Cons c cs)
  show ?case
  proof (cases "f cur = Some Dir \<and> r (Search cur) = None \<and> fsencode_len c \<le> NAME_MAX")
    case True
    then have "namei f r cur (c # cs) = namei f r (step cur c) cs"
      by simp
    with Cons.IH [of "step cur c"] True show ?thesis
      by (simp add: All_less_Suc2)
  next
    case False
    then have "\<forall>t. namei f r cur (c # cs) \<noteq> Inr t"
      by (auto split: option.splits node.splits)
    moreover from False
    have "\<not> (\<forall>k<length (c # cs). f (norm cur (take k (c # cs))) = Some Dir \<and>
                    r (Search (norm cur (take k (c # cs)))) = None \<and>
                    fsencode_len ((c # cs) ! k) \<le> NAME_MAX)"
      by (auto simp: All_less_Suc2)
    ultimately show ?thesis
      by blast
  qed
qed

text \<open>Why a walk fails: the first directory on the way at which something is wrong.\<close>

lemma namei_Inl:
  "namei f r cur cs = Inl e \<Longrightarrow>
     \<exists>k<length cs. (e = ENOENT \<and> f (norm cur (take k cs)) = None) \<or>
                   (e = ENOTDIR \<and> regular (f (norm cur (take k cs)))) \<or>
                   (\<exists>x. e = Refused x \<and> r (Search (norm cur (take k cs))) = Some x) \<or>
                   (e = ENAMETOOLONG \<and> NAME_MAX < fsencode_len (cs ! k))"
proof (induction cs arbitrary: cur)
  case Nil
  then show ?case by simp
next
  case (Cons c cs)
  show ?case
  proof (cases "f cur = Some Dir \<and> r (Search cur) = None \<and> fsencode_len c \<le> NAME_MAX")
    case True
    with Cons.prems have "namei f r (step cur c) cs = Inl e" by simp
    from Cons.IH [OF this] obtain k where "k < length cs"
      and "(e = ENOENT \<and> f (norm (step cur c) (take k cs)) = None) \<or>
           (e = ENOTDIR \<and> regular (f (norm (step cur c) (take k cs)))) \<or>
           (\<exists>x. e = Refused x \<and> r (Search (norm (step cur c) (take k cs))) = Some x) \<or>
           (e = ENAMETOOLONG \<and> NAME_MAX < fsencode_len (cs ! k))"
      by blast
    then show ?thesis by (intro exI [of _ "Suc k"]) simp
  next
    case False
    with Cons.prems
    have "(e = ENOENT \<and> f cur = None) \<or> (e = ENOTDIR \<and> regular (f cur)) \<or>
          (\<exists>x. e = Refused x \<and> r (Search cur) = Some x) \<or>
          (e = ENAMETOOLONG \<and> NAME_MAX < fsencode_len c)"
      by (auto simp: regular_def split: option.splits node.splits if_splits)
    then show ?thesis by (intro exI [of _ 0]) simp
  qed
qed

section \<open>Names\<close>

lemma fsencode_len_Nil [simp]: "fsencode_len [] = 0"
  by (simp add: fsencode_len_def)

lemma fsencode_len_append [simp]: "fsencode_len (a @ b) = fsencode_len a + fsencode_len b"
  by (simp add: fsencode_len_def)

lemma join_sep_snoc:
  "join_sep (xs @ [x]) = (if xs = [] then x else join_sep xs @ ''/'' @ x)"
  by (induction xs rule: join_sep.induct) auto

lemma join_sep_butlast:
  "set (join_sep (butlast xs)) \<subseteq> set (join_sep xs)"
  "fsencode_len (join_sep (butlast xs)) \<le> fsencode_len (join_sep xs)"
proof -
  have "set (join_sep (butlast xs)) \<subseteq> set (join_sep xs) \<and>
      fsencode_len (join_sep (butlast xs)) \<le> fsencode_len (join_sep xs)"
  proof (cases xs rule: rev_cases)
    case Nil
    then show ?thesis by simp
  next
    case (snoc ys y)
    then show ?thesis by (auto simp: join_sep_snoc)
  qed
  then show "set (join_sep (butlast xs)) \<subseteq> set (join_sep xs)"
    and "fsencode_len (join_sep (butlast xs)) \<le> fsencode_len (join_sep xs)"
    by simp_all
qed

lemma parts_parent [simp]: "parts (parent p) = butlast (parts p)"
  by (simp add: parent_def)

lemma root_parent [simp]: "root (parent p) = root p"
  by (simp add: parent_def)

lemma absolute_parent [simp]: "absolute (parent p) = absolute p"
  by (simp add: absolute_def)

lemma start_parent [simp]: "start w (parent p) = start w p"
  by (simp add: start_def)

text \<open>
  The string of the parent is a part of the path's string, or the single dot of the empty
  relative path.
\<close>

lemma str_of_parent:
  "set (str_of (parent p)) \<subseteq> insert (CHR ''.'') (set (str_of p))"
  "fsencode_len (str_of (parent p)) \<le> max 1 (fsencode_len (str_of p))"
proof -
  have dot: "fsencode_len ''.'' = 1"
    by (simp add: fsencode_len_def)
  show "set (str_of (parent p)) \<subseteq> insert (CHR ''.'') (set (str_of p))"
    using join_sep_butlast(1) [of "parts p"] by (auto simp: str_of_def)
  show "fsencode_len (str_of (parent p)) \<le> max 1 (fsencode_len (str_of p))"
    using join_sep_butlast(2) [of "parts p"] dot by (auto simp: str_of_def)
qed

lemma null_in_parent: "\<not> null_in p \<Longrightarrow> \<not> null_in (parent p)"
  using str_of_parent(1) [of p] by (auto simp: null_in_def)

section \<open>Walking a path\<close>

lemma in_walked:
  "t \<in> set (walked w p) \<longleftrightarrow> (\<exists>k<length (parts p). t = norm (start w p) (take k (parts p)))"
  by (auto simp: walked_def)

lemma in_prefix_locs:
  "t \<in> set (prefix_locs w p) \<longleftrightarrow>
     (\<exists>k\<le>length (parts p). t = norm (start w p) (take k (parts p)))"
proof -
  have "set (prefix_locs w p) = (\<lambda>k. norm (start w p) (take k (parts p))) ` {k. k \<le> length (parts p)}"
    unfolding prefix_locs_def set_map set_upt by (rule arg_cong [where f = "(`) _"]) auto
  then show ?thesis by auto
qed

lemma prefix_locs_walked: "prefix_locs w p = walked w p @ [norm (start w p) (parts p)]"
  by (simp add: prefix_locs_def walked_def)

lemma last_prefix_loc: "norm (start w p) (parts p) \<in> set (prefix_locs w p)"
  by (simp add: prefix_locs_walked)

lemma walked_in_parent: "set (walked w p) \<subseteq> set (prefix_locs w (parent p))"
proof
  fix t assume "t \<in> set (walked w p)"
  then obtain k where k: "k < length (parts p)" and t: "t = norm (start w p) (take k (parts p))"
    unfolding in_walked by blast
  from k have "take k (butlast (parts p)) = take k (parts p)"
    by (simp add: take_butlast)
  moreover from k have "k \<le> length (parts (parent p))"
    by simp
  ultimately show "t \<in> set (prefix_locs w (parent p))"
    unfolding in_prefix_locs using t by (intro exI [of _ k]) simp
qed

lemma prefix_locs_parent: "set (prefix_locs w (parent p)) \<subseteq> set (prefix_locs w p)"
proof
  fix t assume "t \<in> set (prefix_locs w (parent p))"
  then obtain k where k: "k \<le> length (butlast (parts p))"
    and t: "t = norm (start w p) (take k (butlast (parts p)))"
    unfolding in_prefix_locs by auto
  have "take k (butlast (parts p)) = take k (parts p)"
    using k by (simp add: take_butlast butlast_conv_take)
  moreover have "k \<le> length (parts p)" using k by simp
  ultimately show "t \<in> set (prefix_locs w p)"
    unfolding in_prefix_locs using t by auto
qed

lemma walked_parent: "set (walked w (parent p)) \<subseteq> set (walked w p)"
proof
  fix t assume "t \<in> set (walked w (parent p))"
  then obtain k where k: "k < length (butlast (parts p))"
    and t: "t = norm (start w p) (take k (butlast (parts p)))"
    unfolding in_walked by auto
  have "take k (butlast (parts p)) = take k (parts p)"
    using k by (simp add: take_butlast)
  moreover have "k < length (parts p)" using k by simp
  ultimately show "t \<in> set (walked w p)"
    unfolding in_walked using t by auto
qed

lemma passable_iff:
  "passable w p \<longleftrightarrow>
     \<not> null_in p \<and> fsencode_len (str_of p) < PATH_MAX \<and>
     (\<forall>k<length (parts p). refuses w (Search (norm (start w p) (take k (parts p)))) = None \<and>
                           fsencode_len (parts p ! k) \<le> NAME_MAX)"
proof -
  have "list_all (\<lambda>c. fsencode_len c \<le> NAME_MAX) (parts p) \<longleftrightarrow>
      (\<forall>k<length (parts p). fsencode_len (parts p ! k) \<le> NAME_MAX)"
    by (simp add: list_all_length)
  moreover have "list_all (\<lambda>t. refuses w (Search t) = None) (walked w p) \<longleftrightarrow>
      (\<forall>k<length (parts p). refuses w (Search (norm (start w p) (take k (parts p)))) = None)"
    by (simp add: list_all_length walked_def)
  ultimately show ?thesis
    unfolding passable_def by blast
qed

lemma passable_parent: "passable w p \<Longrightarrow> passable w (parent p)"
proof -
  assume ok: "passable w p"
  then have "\<not> null_in (parent p)"
    by (simp add: passable_def null_in_parent)
  moreover have "fsencode_len (str_of (parent p)) < PATH_MAX"
    using ok str_of_parent(2) [of p]
    by (simp add: passable_def PATH_MAX_def max_def split: if_splits)
  moreover have "list_all (\<lambda>c. fsencode_len c \<le> NAME_MAX) (parts (parent p))"
    using ok by (auto simp: passable_def list_all_iff dest: in_set_butlastD)
  moreover have "list_all (\<lambda>t. refuses w (Search t) = None) (walked w (parent p))"
    using ok walked_parent [of w p] by (auto simp: passable_def list_all_iff)
  ultimately show ?thesis
    by (simp add: passable_def)
qed

text \<open>The walk succeeds exactly along a passable path through directories.\<close>

lemma lookup_Inr_iff:
  "\<not> null_in p \<Longrightarrow>
     lookup w p = Inr t \<longleftrightarrow>
       t = norm (start w p) (parts p) \<and> passable w p \<and>
       (\<forall>d\<in>set (walked w p). files w d = Some Dir)"
  unfolding lookup_def passable_iff Ball_def in_walked
  by (auto simp: namei_Inr_iff)

lemma lookup_Inl:
  assumes "lookup w p = Inl e" and "passable w p"
  shows "\<exists>d\<in>set (walked w p). (e = ENOENT \<and> files w d = None) \<or>
                              (e = ENOTDIR \<and> regular (files w d))"
proof -
  from assms have "namei (files w) (refuses w) (start w p) (parts p) = Inl e"
    by (auto simp: lookup_def passable_def split: if_splits)
  from namei_Inl [OF this] obtain k where k: "k < length (parts p)"
    and why: "(e = ENOENT \<and> files w (norm (start w p) (take k (parts p))) = None) \<or>
         (e = ENOTDIR \<and> regular (files w (norm (start w p) (take k (parts p))))) \<or>
         (\<exists>x. e = Refused x \<and> refuses w (Search (norm (start w p) (take k (parts p)))) = Some x) \<or>
         (e = ENAMETOOLONG \<and> NAME_MAX < fsencode_len (parts p ! k))"
    by blast
  from assms(2) k
  have "refuses w (Search (norm (start w p) (take k (parts p)))) = None"
    and "fsencode_len (parts p ! k) \<le> NAME_MAX"
    by (simp_all add: passable_iff)
  with why have "(e = ENOENT \<and> files w (norm (start w p) (take k (parts p))) = None) \<or>
         (e = ENOTDIR \<and> regular (files w (norm (start w p) (take k (parts p)))))"
    by auto
  moreover from k have "norm (start w p) (take k (parts p)) \<in> set (walked w p)"
    unfolding in_walked by blast
  ultimately show ?thesis
    by blast
qed

lemma is_dir_iff:
  "is_dir w p = Inr True \<longleftrightarrow>
     passable w p \<and> (\<forall>t\<in>set (prefix_locs w p). files w t = Some Dir)"
proof (cases "null_in p")
  case True
  then show ?thesis
    by (simp add: is_dir_def stat_def passable_def)
next
  case False
  have "is_dir w p = Inr True \<longleftrightarrow>
      (\<exists>t. lookup w p = Inr t \<and> files w t = Some Dir)"
    using False
    by (auto simp: is_dir_def stat_def split: sum.splits option.splits node.splits
          call_error.splits if_splits)
  then show ?thesis
    using False by (auto simp: lookup_Inr_iff prefix_locs_walked)
qed

section \<open>Creating directories\<close>

lemma made_dirs_refl: "made_dirs w [] w"
  by (simp add: made_dirs_def)

lemma made_dirs_trans:
  "made_dirs w ds w1 \<Longrightarrow> made_dirs w1 ds' w2 \<Longrightarrow> made_dirs w (ds @ ds') w2"
  by (auto simp: made_dirs_def split: if_splits)

lemma made_dirs_start: "made_dirs w ds w' \<Longrightarrow> start w' p = start w p"
  by (simp add: made_dirs_def start_def)

lemma made_dirs_prefix_locs: "made_dirs w ds w' \<Longrightarrow> prefix_locs w' p = prefix_locs w p"
  by (simp add: prefix_locs_def made_dirs_start)

lemma made_dirs_walked: "made_dirs w ds w' \<Longrightarrow> walked w' p = walked w p"
  by (simp add: walked_def made_dirs_start)

lemma passable_cong: "cwd w' = cwd w \<Longrightarrow> refuses w' = refuses w \<Longrightarrow> passable w' p = passable w p"
  by (simp add: passable_def walked_def start_def)

lemma made_dirs_passable: "made_dirs w ds w' \<Longrightarrow> passable w' p = passable w p"
  by (rule passable_cong) (simp_all add: made_dirs_def)

lemma os_mkdir_Inr:
  assumes "os_mkdir w p = (Inr u, w')"
  shows "\<not> null_in p"
    and "lookup w p = Inr (norm (start w p) (parts p))"
    and "made_dirs w [norm (start w p) (parts p)] w'"
proof -
  from assms show nn: "\<not> null_in p"
    by (auto simp: os_mkdir_def split: if_splits)
  with assms obtain t where t: "lookup w p = Inr t" and none: "files w t = None"
    and ok: "refuses w (Create t) = None"
    and w': "w' = log (Ev_mkdir t) (w\<lparr>files := (files w)(t \<mapsto> Dir)\<rparr>)"
    by (auto simp: os_mkdir_def split: sum.splits option.splits)
  from t nn have "t = norm (start w p) (parts p)"
    by (simp add: lookup_Inr_iff)
  with t none ok w' show "lookup w p = Inr (norm (start w p) (parts p))"
    and "made_dirs w [norm (start w p) (parts p)] w'"
    by (simp_all add: made_dirs_def log_def)
qed

lemma os_mkdir_Inl: "os_mkdir w p = (Inl e, w') \<Longrightarrow> w' = w"
  by (auto simp: os_mkdir_def split: sum.splits option.splits if_splits)

text \<open>Whatever its outcome, \<^verbatim>\<open>mkdir\<close> only creates directories, and only ancestors of the path.\<close>

lemma mkdir_made_dirs:
  "mkdir w p ps ex = (r, w') \<Longrightarrow> \<exists>ds. made_dirs w ds w' \<and> set ds \<subseteq> set (prefix_locs w p)"
proof (induction w p ps ex arbitrary: r w' rule: mkdir.induct)
  case (1 w p parents exist_ok)
  obtain x y where xy: "(x, y) = os_mkdir w p"
    by (metis surj_pair)
  note eq = "1.prems" [unfolded mkdir.simps [of w p parents exist_ok]]
  have unchanged: "\<exists>ds. made_dirs w ds w \<and> set ds \<subseteq> set (prefix_locs w p)"
    by (rule exI [of _ "[]"]) (simp add: made_dirs_refl)
  show ?case
  proof (cases x)
    case (Inr u)
    with xy eq have "w' = y" by (simp add: xy [symmetric])
    moreover from xy Inr have "made_dirs w [norm (start w p) (parts p)] y"
      by (intro os_mkdir_Inr(3) [of w p u]) simp
    ultimately show ?thesis
      by (intro exI [of _ "[norm (start w p) (parts p)]"]) (simp add: last_prefix_loc)
  next
    case (Inl ce)
    show ?thesis
    proof (cases ce)
      case Embedded_null
      with xy Inl eq have "w' = w"
        by (simp add: xy [symmetric])
      with unchanged show ?thesis by blast
    next
      case (Os e)
      show ?thesis
      proof (cases "e = ENOENT")
        case False
        with xy Inl Os eq have "w' = w"
          by (auto simp: xy [symmetric] split: if_splits sum.splits)
        with unchanged show ?thesis by blast
      next
        case True
        show ?thesis
        proof (cases "\<not> parents \<or> parent p = p")
          case stop: True
          with xy Inl Os True eq have "w' = w"
            by (auto simp: xy [symmetric] split: if_splits)
          with unchanged show ?thesis by blast
        next
          case go: False
          obtain xa ya where xaya: "(xa, ya) = mkdir w (parent p) True True"
            by (metis surj_pair)
          from "1.IH"(1) [OF xy Inl Os True go xaya [symmetric]]
          obtain ds1 where ds1: "made_dirs w ds1 ya" "set ds1 \<subseteq> set (prefix_locs w (parent p))"
            by blast
          then have sub1: "set ds1 \<subseteq> set (prefix_locs w p)"
            using prefix_locs_parent by blast
          show ?thesis
          proof (cases xa)
            case (Inl e')
            with xy \<open>x = Inl ce\<close> Os True go xaya eq have "w' = ya"
              by (auto simp: xy [symmetric] xaya [symmetric])
            with ds1(1) sub1 show ?thesis by blast
          next
            case (Inr b)
            with xy \<open>x = Inl ce\<close> Os True go xaya eq have "mkdir ya p False exist_ok = (r, w')"
              by (auto simp: xy [symmetric] xaya [symmetric])
            from "1.IH"(2) [OF xy \<open>x = Inl ce\<close> Os True go xaya Inr this]
            obtain ds2 where ds2: "made_dirs ya ds2 w'" "set ds2 \<subseteq> set (prefix_locs ya p)"
              by blast
            from ds1(1) ds2(1) have "made_dirs w (ds1 @ ds2) w'"
              by (rule made_dirs_trans)
            moreover have "set (ds1 @ ds2) \<subseteq> set (prefix_locs w p)"
              using sub1 ds2(2) made_dirs_prefix_locs [OF ds1(1)] by simp
            ultimately show ?thesis by blast
          qed
        qed
      qed
    qed
  qed
qed

lemma creatable_iff:
  "creatable w p \<longleftrightarrow>
     passable w p \<and>
     (\<forall>t\<in>set (prefix_locs w p).
        files w t = Some Dir \<or> (files w t = None \<and> refuses w (Create t) = None))"
proof -
  have "(case n of None \<Rightarrow> A | Some (File b) \<Rightarrow> False | Some Dir \<Rightarrow> True) \<longleftrightarrow>
      n = Some Dir \<or> (n = None \<and> A)" for n :: "node option" and A
    by (auto split: option.splits node.splits)
  then show ?thesis
    unfolding creatable_def list_all_iff by simp
qed

lemma creatable_parent: "creatable w p \<Longrightarrow> creatable w (parent p)"
  unfolding creatable_iff using prefix_locs_parent [of w p] by (auto intro: passable_parent)

text \<open>The last step: every directory on the way stands, and the path is one or is missing.\<close>

lemma mkdir_single_ok:
  assumes pass: "passable w p"
    and dirs: "\<forall>d\<in>set (walked w p). files w d = Some Dir"
    and target: "files w (norm (start w p) (parts p)) = Some Dir \<or>
      (files w (norm (start w p) (parts p)) = None \<and>
       refuses w (Create (norm (start w p) (parts p))) = None)"
  shows "\<exists>w'. mkdir w p ps True = (Inr (), w') \<and> (\<forall>t\<in>set (prefix_locs w p). files w' t = Some Dir)"
proof -
  let ?t = "norm (start w p) (parts p)"
  from pass have nn: "\<not> null_in p"
    by (simp add: passable_def)
  have lk: "lookup w p = Inr ?t"
    using nn pass dirs by (simp add: lookup_Inr_iff)
  show ?thesis
  proof (cases "files w ?t")
    case None
    with target have ok: "refuses w (Create ?t) = None"
      by simp
    let ?w' = "log (Ev_mkdir ?t) (w\<lparr>files := (files w)(?t \<mapsto> Dir)\<rparr>)"
    have "os_mkdir w p = (Inr (), ?w')"
      using nn lk None ok by (simp add: os_mkdir_def)
    then have "mkdir w p ps True = (Inr (), ?w')"
      by (subst mkdir.simps) simp
    moreover have "\<forall>t\<in>set (prefix_locs w p). files ?w' t = Some Dir"
      using dirs by (simp add: prefix_locs_walked log_def)
    ultimately show ?thesis by blast
  next
    case (Some n)
    with target have dir: "files w ?t = Some Dir"
      by simp
    have "os_mkdir w p = (Inl (Os EEXIST), w)"
      using nn lk dir by (simp add: os_mkdir_def)
    moreover have all: "\<forall>t\<in>set (prefix_locs w p). files w t = Some Dir"
      using dirs dir by (simp add: prefix_locs_walked)
    then have "is_dir w p = Inr True"
      using pass by (simp add: is_dir_iff)
    ultimately have "mkdir w p ps True = (Inr (), w)"
      by (subst mkdir.simps) simp
    with all show ?thesis by blast
  qed
qed

lemma mkdir_parents_ok:
  "creatable w p \<Longrightarrow>
     \<exists>w'. mkdir w p True True = (Inr (), w') \<and> (\<forall>t\<in>set (prefix_locs w p). files w' t = Some Dir)"
proof (induction "length (parts p)" arbitrary: p w rule: less_induct)
  case less
  let ?t = "norm (start w p) (parts p)"
  from less.prems have pass: "passable w p"
    and nf: "\<forall>t\<in>set (prefix_locs w p).
        files w t = Some Dir \<or> (files w t = None \<and> refuses w (Create t) = None)"
    by (simp_all add: creatable_iff)
  from pass have nn: "\<not> null_in p"
    by (simp add: passable_def)
  from nf have nf_last: "files w ?t = Some Dir \<or> (files w ?t = None \<and> refuses w (Create ?t) = None)"
    using last_prefix_loc [of w p] by blast
  show ?case
  proof (cases "\<forall>d\<in>set (walked w p). files w d = Some Dir")
    case True
    from mkdir_single_ok [OF pass True nf_last] show ?thesis .
  next
    case False
    then have "\<forall>t. lookup w p \<noteq> Inr t"
      using nn by (simp add: lookup_Inr_iff)
    then obtain e where e: "lookup w p = Inl e"
      by (cases "lookup w p") auto
    from lookup_Inl [OF e pass] obtain d where d: "d \<in> set (walked w p)"
      and why: "(e = ENOENT \<and> files w d = None) \<or> (e = ENOTDIR \<and> regular (files w d))"
      by blast
    from d have "d \<in> set (prefix_locs w p)"
      by (simp add: prefix_locs_walked)
    with nf why have "e = ENOENT"
      by (auto simp: regular_def)
    from d have ne: "parts p \<noteq> []"
      by (auto simp: walked_def)
    have os: "os_mkdir w p = (Inl (Os ENOENT), w)"
      using e nn \<open>e = ENOENT\<close> by (simp add: os_mkdir_def)
    from ne have pp: "parent p \<noteq> p"
      by (metis parts_parent length_butlast diff_less length_greater_0_conv less_irrefl zero_less_one)
    from ne have shorter: "length (parts (parent p)) < length (parts p)"
      by simp
    have "creatable w (parent p)"
      using less.prems by (rule creatable_parent)
    from less.hyps [OF shorter this] obtain w1
      where w1: "mkdir w (parent p) True True = (Inr (), w1)"
        and dirs1: "\<forall>t\<in>set (prefix_locs w (parent p)). files w1 t = Some Dir"
      by blast
    from mkdir_made_dirs [OF w1] obtain ds where ds: "made_dirs w ds w1"
      by blast
    have st: "start w1 p = start w p"
      using ds by (rule made_dirs_start)
    have pass1: "passable w1 p"
      using pass by (simp add: made_dirs_passable [OF ds])
    have dirs: "\<forall>d\<in>set (walked w1 p). files w1 d = Some Dir"
      using dirs1 walked_in_parent [of w p] by (auto simp: made_dirs_walked [OF ds])
    have "files w1 (norm (start w1 p) (parts p)) = Some Dir \<or>
        (files w1 (norm (start w1 p) (parts p)) = None \<and>
         refuses w1 (Create (norm (start w1 p) (parts p))) = None)"
      using ds nf_last by (auto simp: made_dirs_def st)
    from mkdir_single_ok [OF pass1 dirs this, of False] obtain w'
      where w': "mkdir w1 p False True = (Inr (), w')"
        and all: "\<forall>t\<in>set (prefix_locs w1 p). files w' t = Some Dir"
      by blast
    have "mkdir w p True True = (Inr (), w')"
      by (subst mkdir.simps) (simp add: os pp w1 w')
    with all made_dirs_prefix_locs [OF ds, of p] show ?thesis by simp
  qed
qed

lemma made_dirs_is_dir: "made_dirs w ds w' \<Longrightarrow> is_dir w p = Inr True \<Longrightarrow> is_dir w' p = Inr True"
  unfolding is_dir_iff
  by (simp add: made_dirs_prefix_locs made_dirs_passable) (simp add: made_dirs_def)

lemma mkdir_Inr_is_dir: "mkdir w p ps ex = (Inr u, w') \<Longrightarrow> is_dir w' p = Inr True"
proof (induction w p ps ex arbitrary: w' rule: mkdir.induct)
  case (1 w p parents exist_ok)
  obtain x y where xy: "(x, y) = os_mkdir w p"
    by (metis surj_pair)
  note eq = "1.prems" [unfolded mkdir.simps [of w p parents exist_ok]]
  show ?case
  proof (cases x)
    case (Inr v)
    with xy eq have w': "w' = y" by (simp add: xy [symmetric])
    from xy Inr have nn: "\<not> null_in p"
      and lk: "lookup w p = Inr (norm (start w p) (parts p))"
      and md: "made_dirs w [norm (start w p) (parts p)] y"
      using os_mkdir_Inr [of w p v y] by simp_all
    from lk nn have pass: "passable w p" and dirs: "\<forall>d\<in>set (walked w p). files w d = Some Dir"
      by (simp_all add: lookup_Inr_iff)
    have "\<forall>t\<in>set (prefix_locs w p). files y t = Some Dir"
      using dirs md by (simp add: prefix_locs_walked made_dirs_def)
    then show ?thesis
      unfolding w' is_dir_iff made_dirs_prefix_locs [OF md] made_dirs_passable [OF md]
      using pass by simp
  next
    case (Inl ce)
    show ?thesis
    proof (cases ce)
      case Embedded_null
      with xy Inl eq show ?thesis
        by (simp add: xy [symmetric])
    next
      case (Os e)
      show ?thesis
      proof (cases "e = ENOENT")
        case False
        with xy Inl Os eq have "w' = w" "is_dir w p = Inr True"
          by (auto simp: xy [symmetric] split: if_splits sum.splits)
        then show ?thesis by simp
      next
        case True
        with xy Inl Os eq have go: "\<not> (\<not> parents \<or> parent p = p)"
          by (auto simp: xy [symmetric] split: if_splits)
        obtain xa ya where xaya: "(xa, ya) = mkdir w (parent p) True True"
          by (metis surj_pair)
        with xy Inl Os True go eq obtain b where b: "xa = Inr b"
          and again: "mkdir ya p False exist_ok = (Inr u, w')"
          by (cases xa) (auto simp: xy [symmetric] xaya [symmetric])
        from "1.IH"(2) [OF xy Inl Os True go xaya b again] show ?thesis .
      qed
    qed
  qed
qed

text \<open>
  \<^verbatim>\<open>mkdir(parents=True, exist_ok=True)\<close> succeeds exactly on the paths that can be made a
  directory.
\<close>

lemma mkdir_ok_iff_creatable:
  "(\<exists>w'. mkdir w p True True = (Inr (), w')) \<longleftrightarrow> creatable w p"
proof
  assume "\<exists>w'. mkdir w p True True = (Inr (), w')"
  then obtain w' where ok: "mkdir w p True True = (Inr (), w')" ..
  from mkdir_made_dirs [OF ok] obtain ds where ds: "made_dirs w ds w'"
    by blast
  from mkdir_Inr_is_dir [OF ok] have pass: "passable w p"
    and "\<forall>t\<in>set (prefix_locs w p). files w' t = Some Dir"
    by (simp_all add: is_dir_iff made_dirs_prefix_locs [OF ds] made_dirs_passable [OF ds])
  then have "\<forall>t\<in>set (prefix_locs w p).
      files w t = Some Dir \<or> (files w t = None \<and> refuses w (Create t) = None)"
    using ds by (auto simp: made_dirs_def split: if_splits)
  with pass show "creatable w p"
    by (simp add: creatable_iff)
next
  assume "creatable w p"
  from mkdir_parents_ok [OF this] show "\<exists>w'. mkdir w p True True = (Inr (), w')"
    by blast
qed

section \<open>Opening and writing\<close>

lemma os_open_w_ok:
  assumes "\<not> null_in p" and "lookup w p = Inr t"
    and "case files w t of None \<Rightarrow> refuses w (Create t) = None
         | Some (File b) \<Rightarrow> refuses w (Truncate t) = None | Some Dir \<Rightarrow> False"
  shows "os_open_w w p = (Inr t, log (Ev_creat t) (w\<lparr>files := (files w)(t \<mapsto> File [])\<rparr>))"
  using assms by (auto simp: os_open_w_def split: option.splits node.splits)

lemma write_text_ok:
  assumes "\<not> null_in p" and "lookup w p = Inr t"
    and "case files w t of None \<Rightarrow> refuses w (Create t) = None
         | Some (File b) \<Rightarrow> refuses w (Truncate t) = None | Some Dir \<Rightarrow> False"
    and "refuses w (Store t) = None"
    and "utf8_encode data = Some bs"
  shows "\<exists>w'. write_text w p data = (Inr (length data), w') \<and> cwd w' = cwd w \<and>
           refuses w' = refuses w \<and> files w' = (files w)(t \<mapsto> File bs) \<and>
           events w' = events w @ [Ev_creat t, Ev_write t bs]"
  using assms(4,5) by (simp add: write_text_def os_open_w_ok [OF assms(1-3)] log_def)

lemma write_text_Inr:
  assumes "write_text w p data = (Inr n, w')"
  shows "\<exists>t bs. \<not> null_in p \<and> lookup w p = Inr t \<and>
           (case files w t of None \<Rightarrow> refuses w (Create t) = None
            | Some (File b) \<Rightarrow> refuses w (Truncate t) = None | Some Dir \<Rightarrow> False) \<and>
           refuses w (Store t) = None \<and> utf8_encode data = Some bs \<and>
           cwd w' = cwd w \<and> refuses w' = refuses w \<and> files w' = (files w)(t \<mapsto> File bs) \<and>
           events w' = events w @ [Ev_creat t, Ev_write t bs]"
  using assms
  by (auto simp: write_text_def os_open_w_def log_def
           split: sum.splits option.splits node.splits prod.splits if_splits)

section \<open>Events, strings and the concrete world\<close>

lemma new_events_append: "events w' = events w @ es \<Longrightarrow> new_events w w' = es"
  by (simp add: new_events_def)

lemma made_dirs_regular:
  "made_dirs w ds w' \<Longrightarrow> (files w' l = Some (File b)) = (files w l = Some (File b))"
  by (auto simp: made_dirs_def)

lemma log_simps [simp]:
  "files (log e w) = files w" "cwd (log e w) = cwd w" "refuses (log e w) = refuses w"
  "torn (log e w) = torn w" "events (log e w) = events w @ [e]"
  by (simp_all add: log_def)

lemma log_frame [simp]:
  "start (log e w) p = start w p" "walked (log e w) p = walked w p"
  "prefix_locs (log e w) p = prefix_locs w p" "passable (log e w) p = passable w p"
  "lookup (log e w) p = lookup w p"
  by (simp_all add: start_def walked_def prefix_locs_def passable_def lookup_def)

lemma made_dirs_events: "made_dirs w ds w1 \<Longrightarrow> events w1 = events w @ map Ev_mkdir ds"
  by (simp add: made_dirs_def)

lemma raised_other:
  "raised ce \<noteq> ValueError msg_vacia" "raised ce \<noteq> External x"
  by (cases ce; simp add: raised_def msg_vacia_def)+

lemma strip_Nil_iff: "strip t = [] \<longleftrightarrow> list_all isspace t"
proof
  assume "strip t = []"
  then have "\<forall>c\<in>set (dropWhile isspace t). isspace c"
    by (simp add: strip_def)
  moreover have "\<forall>c\<in>set (takeWhile isspace t). isspace c"
    by (meson set_takeWhileD)
  moreover have "set t = set (takeWhile isspace t) \<union> set (dropWhile isspace t)"
    by (metis set_append takeWhile_dropWhile_id)
  ultimately show "list_all isspace t"
    unfolding list_all_iff by blast
next
  assume "list_all isspace t"
  then have "\<forall>c\<in>set (dropWhile isspace t). isspace c"
    unfolding list_all_iff by (meson set_dropWhileD)
  then show "strip t = []"
    by (simp add: strip_def)
qed

lemmas ej_path_simps = Path_def splitroot_def absolute_def str_of_def name_def suffix_def
  with_suffix_def destino_def parent_def

lemmas ej_fs_simps = is_file_def is_dir_def stat_def lookup_def start_def step_def null_in_def
  fsencode_len_def NAME_MAX_def PATH_MAX_def ignore_error_def ej_mundo_def ej_files_def

lemmas ej_pred_simps = creatable_def writable_def passable_def walked_def prefix_locs_def
  regular_def norm_def

lemma ej_nota:
  "is_file ej_mundo (Path ''audio/nota.mp3'') = Inr True"
  "str_of (Path ''audio/nota.mp3'') = ''audio/nota.mp3''"
  "destino (Path ''audio/nota.mp3'') None = Inr (Path ''audio/nota.txt'')"
  "creatable ej_mundo (parent (Path ''audio/nota.txt''))"
  "writable ej_mundo (Path ''audio/nota.txt'')"
  by (simp_all add: ej_path_simps ej_fs_simps ej_pred_simps upt_rec)

lemma ej_whisper_simps [simp]:
  "load_model (ej_whisper r) m = Inr ()"
  "transcribe (ej_whisper r) h a l k = r"
  by (simp_all add: ej_whisper_def)

text \<open>A name without a slash is a path of one component, and as long as it has characters.\<close>

lemma split_sep_no_sep: "CHR ''/'' \<notin> set s \<Longrightarrow> split_sep s = [s]"
  by (induction s) auto

lemma Path_single:
  assumes "CHR ''/'' \<notin> set s" and "s \<noteq> []" and "s \<noteq> ''.''"
  shows "Path s = \<lparr>root = [], parts = [s]\<rparr>"
proof -
  from assms(1,2) have "hd s \<noteq> CHR ''/''"
    by (cases s) auto
  then have "splitroot s = ([], s)"
    by (simp add: splitroot_def)
  with assms show ?thesis
    by (simp add: Path_def split_sep_no_sep)
qed

lemma fsencode_len_replicate: "fsencode_len (replicate n (CHR ''a'')) = n"
  by (induction n) (simp_all add: fsencode_len_def)

lemma ej_largo:
  "Path (replicate 256 (CHR ''a'')) = \<lparr>root = [], parts = [replicate 256 (CHR ''a'')]\<rparr>"
  "str_of \<lparr>root = [], parts = [replicate 256 (CHR ''a'')]\<rparr> = replicate 256 (CHR ''a'')"
  "\<not> null_in \<lparr>root = [], parts = [replicate 256 (CHR ''a'')]\<rparr>"
  "lookup ej_mundo \<lparr>root = [], parts = [replicate 256 (CHR ''a'')]\<rparr> = Inl ENAMETOOLONG"
proof -
  have ne: "replicate 256 (CHR ''a'') \<noteq> []" "replicate 256 (CHR ''a'') \<noteq> ''.''"
    by (auto dest: arg_cong [where f = length])
  show "Path (replicate 256 (CHR ''a'')) = \<lparr>root = [], parts = [replicate 256 (CHR ''a'')]\<rparr>"
    by (rule Path_single) (use ne in simp_all)
  show s: "str_of \<lparr>root = [], parts = [replicate 256 (CHR ''a'')]\<rparr> = replicate 256 (CHR ''a'')"
    by (simp add: str_of_def absolute_def)
  show "\<not> null_in \<lparr>root = [], parts = [replicate 256 (CHR ''a'')]\<rparr>"
    unfolding null_in_def s by simp
  show "lookup ej_mundo \<lparr>root = [], parts = [replicate 256 (CHR ''a'')]\<rparr> = Inl ENAMETOOLONG"
    unfolding lookup_def s fsencode_len_replicate
    by (simp add: fsencode_len_replicate PATH_MAX_def NAME_MAX_def start_def absolute_def
          ej_mundo_def ej_files_def)
qed

section \<open>The run, forwards and backwards\<close>

lemma lookup_under_dirs:
  assumes "passable w p" and "\<forall>d\<in>set (prefix_locs w (parent p)). files w d = Some Dir"
  shows "lookup w p = Inr (norm (start w p) (parts p))"
proof -
  from assms(1) have "\<not> null_in p"
    by (simp add: passable_def)
  moreover have "\<forall>d\<in>set (walked w p). files w d = Some Dir"
    using assms(2) walked_in_parent [of w p] by blast
  ultimately show ?thesis
    using assms(1) by (simp add: lookup_Inr_iff)
qed

lemma resolve_cwd: "cwd w' = cwd w \<Longrightarrow> resolve w' p = resolve w p"
  by (simp add: resolve_def start_def)

text \<open>
  What a run does once the parent directory stands and the model has answered with a
  transcript that can be encoded: it creates or truncates the destination, writes the bytes
  and returns the resolved path.
\<close>

lemma run_writes:
  fixes wh :: "('h, 'v, 'x) whisper"
  assumes src: "is_file w ruta_mp3 = Inr True"
    and dest: "destino ruta_mp3 ruta_txt = Inr dest"
    and wr: "writable w dest"
    and load: "load_model wh modelo = Inr h"
    and kw: "''language'' \<notin> fst ` set opciones"
    and tr: "transcribe wh h (str_of ruta_mp3) lenguaje opciones = Inr resultado"
    and ne: "texto_de resultado \<noteq> []"
    and enc: "utf8_encode (texto_de resultado) = Some bs"
  shows "\<exists>w' ds. transcribir_mp3_a_txt wh w ruta_mp3 ruta_txt modelo lenguaje opciones =
                   (Inr (resolve w dest), w') \<and>
                cwd w' = cwd w \<and> refuses w' = refuses w \<and>
                set ds \<subseteq> set (prefix_locs w (parent dest)) \<and>
                (\<forall>d\<in>set ds. files w d = None) \<and>
                (\<forall>l. files w' l =
                   (if l = parts (resolve w dest) then Some (File bs)
                    else if l \<in> set ds then Some Dir else files w l)) \<and>
                (\<forall>d\<in>set (prefix_locs w (parent dest)). files w' d = Some Dir) \<and>
                new_events w w' =
                  map Ev_mkdir ds @
                  [Ev_load_model modelo, Ev_transcribe (str_of ruta_mp3) lenguaje opciones,
                   Ev_creat (parts (resolve w dest)), Ev_write (parts (resolve w dest)) bs]"
proof -
  let ?t = "norm (start w dest) (parts dest)"
  from wr have cr: "creatable w (parent dest)" and pass: "passable w dest"
    and fresh: "?t \<notin> set (prefix_locs w (parent dest))"
    and tgt: "case files w ?t of None \<Rightarrow> refuses w (Create ?t) = None
        | Some (File b) \<Rightarrow> refuses w (Truncate ?t) = None | Some Dir \<Rightarrow> False"
    and store: "refuses w (Store ?t) = None"
    by (simp_all add: writable_def Let_def)
  from pass have nn: "\<not> null_in dest"
    by (simp add: passable_def)
  from mkdir_parents_ok [OF cr] obtain w1
    where w1: "mkdir w (parent dest) True True = (Inr (), w1)"
      and dirs1: "\<forall>d\<in>set (prefix_locs w (parent dest)). files w1 d = Some Dir"
    by blast
  from mkdir_made_dirs [OF w1] obtain ds where ds: "made_dirs w ds w1"
    and sub: "set ds \<subseteq> set (prefix_locs w (parent dest))"
    by blast
  let ?w3 = "log (Ev_transcribe (str_of ruta_mp3) lenguaje opciones) (log (Ev_load_model modelo) w1)"
  have st: "start w1 dest = start w dest"
    using ds by (rule made_dirs_start)
  have same: "refuses w1 = refuses w"
    using ds by (simp add: made_dirs_def)
  have "lookup w1 dest = Inr (norm (start w1 dest) (parts dest))"
    by (rule lookup_under_dirs)
      (use pass dirs1 in \<open>simp_all add: made_dirs_passable [OF ds] made_dirs_prefix_locs [OF ds]\<close>)
  then have lk: "lookup ?w3 dest = Inr ?t"
    by (simp add: st)
  have "files w1 ?t = files w ?t"
    using ds sub fresh by (auto simp: made_dirs_def)
  with tgt have tgt3: "case files ?w3 ?t of None \<Rightarrow> refuses ?w3 (Create ?t) = None
        | Some (File b) \<Rightarrow> refuses ?w3 (Truncate ?t) = None | Some Dir \<Rightarrow> False"
    by (simp add: same split: option.splits node.splits)
  have store3: "refuses ?w3 (Store ?t) = None"
    using store by (simp add: same)
  from write_text_ok [OF nn lk tgt3 store3 enc] obtain w4
    where w4: "write_text ?w3 dest (texto_de resultado) =
        (Inr (length (texto_de resultado)) :: 'x error + nat, w4)"
      and cwd4: "cwd w4 = cwd ?w3" and ref4: "refuses w4 = refuses ?w3"
      and files4: "files w4 = (files ?w3)(?t \<mapsto> File bs)"
      and ev4: "events w4 = events ?w3 @ [Ev_creat ?t, Ev_write ?t bs]"
    by blast
  have cwd: "cwd w4 = cwd w" and ref: "refuses w4 = refuses w"
    using cwd4 ref4 ds by (simp_all add: made_dirs_def)
  have res: "resolve w4 dest = resolve w dest"
    using cwd by (rule resolve_cwd)
  have pt: "parts (resolve w dest) = ?t"
    by (simp add: resolve_def)
  have run: "transcribir_mp3_a_txt wh w ruta_mp3 ruta_txt modelo lenguaje opciones =
      (Inr (resolve w dest), w4)"
    using src dest w1 load kw tr ne w4 res by (simp add: transcribir_mp3_a_txt_def Let_def)
  have fl: "\<forall>l. files w4 l =
      (if l = parts (resolve w dest) then Some (File bs)
       else if l \<in> set ds then Some Dir else files w l)"
    using ds by (simp add: files4 pt made_dirs_def)
  have dirs4: "\<forall>d\<in>set (prefix_locs w (parent dest)). files w4 d = Some Dir"
    using dirs1 fresh by (auto simp: files4)
  have ev: "new_events w w4 =
      map Ev_mkdir ds @
      [Ev_load_model modelo, Ev_transcribe (str_of ruta_mp3) lenguaje opciones,
       Ev_creat (parts (resolve w dest)), Ev_write (parts (resolve w dest)) bs]"
    by (rule new_events_append) (simp add: ev4 pt made_dirs_events [OF ds])
  from ds have none: "\<forall>d\<in>set ds. files w d = None"
    by (simp add: made_dirs_def)
  from run cwd ref sub none fl dirs4 ev show ?thesis
    by blast
qed

text \<open>The converse: a run that returns a path went through every one of these steps.\<close>

lemma run_Inr:
  fixes wh :: "('h, 'v, 'x) whisper"
  assumes "transcribir_mp3_a_txt wh w ruta_mp3 ruta_txt modelo lenguaje opciones = (Inr r, w')"
  shows "\<exists>dest h resultado bs.
           is_file w ruta_mp3 = Inr True \<and> destino ruta_mp3 ruta_txt = Inr dest \<and>
           writable w dest \<and>
           load_model wh modelo = Inr h \<and> ''language'' \<notin> fst ` set opciones \<and>
           transcribe wh h (str_of ruta_mp3) lenguaje opciones = Inr resultado \<and>
           texto_de resultado \<noteq> [] \<and> utf8_encode (texto_de resultado) = Some bs"
proof -
  note run = assms [unfolded transcribir_mp3_a_txt_def Let_def]
  from run have src: "is_file w ruta_mp3 = Inr True"
    by (auto split: sum.splits if_splits)
  from run src obtain dest where dest: "destino ruta_mp3 ruta_txt = Inr dest"
    by (cases "destino ruta_mp3 ruta_txt") auto
  obtain x1 w1 where m: "mkdir w (parent dest) True True = (x1, w1)"
    by (metis surj_pair)
  with run src dest have m': "mkdir w (parent dest) True True = (Inr (), w1)"
    by (cases x1) auto
  from run src dest m' obtain h where load: "load_model wh modelo = Inr h"
    by (cases "load_model wh modelo") auto
  from run src dest m' load have kw: "''language'' \<notin> fst ` set opciones"
    by (auto split: if_splits)
  from run src dest m' load kw obtain resultado
    where tr: "transcribe wh h (str_of ruta_mp3) lenguaje opciones = Inr resultado"
    by (cases "transcribe wh h (str_of ruta_mp3) lenguaje opciones") auto
  from run src dest m' load kw tr have ne: "texto_de resultado \<noteq> []"
    by (auto split: if_splits)
  let ?w3 = "log (Ev_transcribe (str_of ruta_mp3) lenguaje opciones) (log (Ev_load_model modelo) w1)"
  obtain x4 w4 where wt: "write_text ?w3 dest (texto_de resultado) = (x4 :: 'x error + nat, w4)"
    by (metis surj_pair)
  with run src dest m' load kw tr ne obtain n where "x4 = Inr n"
    by (cases x4) auto
  with wt have "write_text ?w3 dest (texto_de resultado) = (Inr n :: 'x error + nat, w4)"
    by simp
  from write_text_Inr [OF this] obtain t bs where nn: "\<not> null_in dest"
    and lk: "lookup ?w3 dest = Inr t"
    and tgt3: "case files ?w3 t of None \<Rightarrow> refuses ?w3 (Create t) = None
        | Some (File b) \<Rightarrow> refuses ?w3 (Truncate t) = None | Some Dir \<Rightarrow> False"
    and store3: "refuses ?w3 (Store t) = None"
    and enc: "utf8_encode (texto_de resultado) = Some bs"
    by blast
  from mkdir_made_dirs [OF m'] obtain ds where ds: "made_dirs w ds w1"
    by blast
  have st: "start w1 dest = start w dest"
    using ds by (rule made_dirs_start)
  have same: "refuses w1 = refuses w"
    using ds by (simp add: made_dirs_def)
  from lk nn have t: "t = norm (start w dest) (parts dest)" and "passable w1 dest"
    by (simp_all add: lookup_Inr_iff st)
  then have pass: "passable w dest"
    by (simp add: made_dirs_passable [OF ds])
  from tgt3 have nd1: "files w1 t \<noteq> Some Dir"
    by auto
  from mkdir_Inr_is_dir [OF m'] have "\<forall>d\<in>set (prefix_locs w (parent dest)). files w1 d = Some Dir"
    by (simp add: is_dir_iff made_dirs_prefix_locs [OF ds])
  with nd1 have fresh: "t \<notin> set (prefix_locs w (parent dest))"
    by auto
  from nd1 ds have "files w1 t = files w t"
    by (auto simp: made_dirs_def split: if_splits)
  with tgt3 have tgt: "case files w t of None \<Rightarrow> refuses w (Create t) = None
        | Some (File b) \<Rightarrow> refuses w (Truncate t) = None | Some Dir \<Rightarrow> False"
    by (simp add: same split: option.splits node.splits)
  from store3 have store: "refuses w (Store t) = None"
    by (simp add: same)
  have "creatable w (parent dest)"
    using m' mkdir_ok_iff_creatable by blast
  then have "writable w dest"
    using pass fresh tgt store unfolding t by (simp add: writable_def)
  with src dest load kw tr ne enc show ?thesis
    by blast
qed

lemma ej_texto_simps:
  "strip ej_texto = [0x53, 0x65, 0xF1, 0x6F, 0x72]"
  "utf8_encode [0x53, 0x65, 0xF1, 0x6F, 0x72] = Some ej_bytes"
  by (simp_all add: strip_def isspace_def ej_texto_def ej_bytes_def utf8_char_def)

lemmas ej_run_simps = transcribir_mp3_a_txt_def mkdir.simps os_mkdir_def write_text_def
  os_open_w_def raised_def texto_de_def resolve_def log_def

lemma norm_no_dotdot: "''..'' \<notin> set cs \<Longrightarrow> norm cur cs = cur @ cs"
  by (induction cs arbitrary: cur) (auto simp: step_def)

lemma norm_keeps_no_dotdot: "''..'' \<notin> set cur \<Longrightarrow> ''..'' \<notin> set (norm cur cs)"
proof (induction cs arbitrary: cur)
  case Nil
  then show ?case by simp
next
  case (Cons c cs)
  have "''..'' \<notin> set (step cur c)"
    using Cons.prems by (auto simp: step_def dest: in_set_butlastD)
  then show ?case
    using Cons.IH by simp
qed

lemma resolve_idem:
  assumes "''..'' \<notin> set (cwd w)"
  shows "resolve w (resolve w p) = resolve w p"
proof -
  have "''..'' \<notin> set (norm (start w p) (parts p))"
    using assms by (intro norm_keeps_no_dotdot) (simp add: start_def)
  then show ?thesis
    by (simp add: resolve_def start_def absolute_def norm_no_dotdot)
qed

lemma run_Inr_effect:
  fixes wh :: "('h, 'v, 'x) whisper"
  assumes "transcribir_mp3_a_txt wh w ruta_mp3 ruta_txt modelo lenguaje opciones = (Inr r, w')"
  shows "\<exists>dest h resultado bs ds.
           is_file w ruta_mp3 = Inr True \<and> destino ruta_mp3 ruta_txt = Inr dest \<and>
           writable w dest \<and>
           load_model wh modelo = Inr h \<and>
           transcribe wh h (str_of ruta_mp3) lenguaje opciones = Inr resultado \<and>
           texto_de resultado \<noteq> [] \<and> utf8_encode (texto_de resultado) = Some bs \<and>
           r = resolve w dest \<and> cwd w' = cwd w \<and> refuses w' = refuses w \<and>
           set ds \<subseteq> set (prefix_locs w (parent dest)) \<and>
           (\<forall>d\<in>set ds. files w d = None) \<and>
           (\<forall>l. files w' l =
              (if l = parts r then Some (File bs)
               else if l \<in> set ds then Some Dir else files w l)) \<and>
           (\<forall>d\<in>set (prefix_locs w (parent dest)). files w' d = Some Dir) \<and>
           new_events w w' =
             map Ev_mkdir ds @
             [Ev_load_model modelo, Ev_transcribe (str_of ruta_mp3) lenguaje opciones,
              Ev_creat (parts r), Ev_write (parts r) bs]"
proof -
  from run_Inr [OF assms] obtain dest h resultado bs
    where facts: "is_file w ruta_mp3 = Inr True" "destino ruta_mp3 ruta_txt = Inr dest"
      "writable w dest"
      "load_model wh modelo = Inr h" "''language'' \<notin> fst ` set opciones"
      "transcribe wh h (str_of ruta_mp3) lenguaje opciones = Inr resultado"
      "texto_de resultado \<noteq> []" "utf8_encode (texto_de resultado) = Some bs"
    by blast
  from run_writes [OF facts] obtain w'' ds
    where run: "transcribir_mp3_a_txt wh w ruta_mp3 ruta_txt modelo lenguaje opciones =
        (Inr (resolve w dest), w'')"
      and rest: "cwd w'' = cwd w" "refuses w'' = refuses w"
        "set ds \<subseteq> set (prefix_locs w (parent dest))"
        "\<forall>d\<in>set ds. files w d = None"
        "\<forall>l. files w'' l =
           (if l = parts (resolve w dest) then Some (File bs)
            else if l \<in> set ds then Some Dir else files w l)"
        "\<forall>d\<in>set (prefix_locs w (parent dest)). files w'' d = Some Dir"
        "new_events w w'' =
           map Ev_mkdir ds @
           [Ev_load_model modelo, Ev_transcribe (str_of ruta_mp3) lenguaje opciones,
            Ev_creat (parts (resolve w dest)), Ev_write (parts (resolve w dest)) bs]"
    by blast
  from run assms have same: "r = resolve w dest" "w'' = w'"
    by simp_all
  show ?thesis
    using facts(1-4,6-8) rest unfolding same(2) same(1) [symmetric] using same(1) by blast
qed




lemmas ej_eval_simps = ej_run_simps ej_texto_simps(1) utf8_char_def ej_bytes_def ej_path_simps
  ej_fs_simps ej_pred_simps

text \<open>
  What \<^verbatim>\<open>write_text\<close> does, whatever its outcome: the first \<open>m\<close> of two things in order
  (create or truncate the file, write it); a file that was opened and not written to the
  end holds some part \<open>c\<close> of the content.
\<close>

lemma write_text_trace:
  fixes x :: "'x error + nat"
  assumes "write_text w p data = (x, w')"
  shows "\<exists>m t bs c.
           m \<le> 2 \<and> cwd w' = cwd w \<and> refuses w' = refuses w \<and>
           events w' = events w @ take m [Ev_creat t, Ev_write t bs] \<and>
           (\<forall>l. files w' l =
              (if 0 < m \<and> l = t then Some (File (if m = 2 then bs else c)) else files w l)) \<and>
           (0 < m \<longrightarrow> lookup w p = Inr t \<and> files w t \<noteq> Some Dir) \<and>
           x \<noteq> Inl (ValueError msg_vacia) \<and> (\<forall>e. x \<noteq> Inl (External e)) \<and>
           ((\<exists>n. x = Inr n) \<longrightarrow> m = 2)"
    (is "\<exists>m t bs c. ?shape m t bs c")
proof -
  obtain o1 w1 where op: "os_open_w w p = (o1, w1)"
    by (metis surj_pair)
  note wt = assms [unfolded write_text_def op]
  show ?thesis
  proof (cases o1)
    case (Inl ce)
    with op have "w1 = w"
      by (auto simp: os_open_w_def split: if_splits sum.splits option.splits node.splits)
    with wt Inl have "x = Inl (raised ce)" "w' = w"
      by simp_all
    then have "?shape 0 [] [] []"
      by (simp add: raised_other)
    then show ?thesis by (intro exI)
  next
    case (Inr t)
    with op have lk: "lookup w p = Inr t" and nd: "files w t \<noteq> Some Dir"
      and w1: "w1 = log (Ev_creat t) (w\<lparr>files := (files w)(t \<mapsto> File [])\<rparr>)"
      by (auto simp: os_open_w_def split: if_splits sum.splits option.splits node.splits)
    show ?thesis
    proof (cases "utf8_encode data")
      case None
      with wt Inr have "x = Inl UnicodeEncodeError" "w' = w1"
        by simp_all
      then have "?shape 1 t [] []"
        using lk nd w1 by simp
      then show ?thesis by (intro exI)
    next
      case (Some bs)
      show ?thesis
      proof (cases "refuses w1 (Store t)")
        case (Some e)
        with wt Inr \<open>utf8_encode data = Some bs\<close>
        have "x = Inl (OSError (Refused e))"
          and "w' = w1\<lparr>files := (files w1)(t \<mapsto> File (take (torn w1) bs))\<rparr>"
          by simp_all
        then have "?shape 1 t [] (take (torn w1) bs)"
          using lk nd w1 by simp
        then show ?thesis by (intro exI)
      next
        case None
        with wt Inr \<open>utf8_encode data = Some bs\<close>
        have "x = Inr (length data)"
          and "w' = log (Ev_write t bs) (w1\<lparr>files := (files w1)(t \<mapsto> File bs)\<rparr>)"
          by simp_all
        then have "?shape 2 t bs []"
          using lk nd w1 by simp
        then show ?thesis by (intro exI)
      qed
    qed
  qed
qed

text \<open>
  Every run, whatever its outcome, has this shape: it creates directories \<open>ds\<close>, then does
  the first \<open>n\<close> of four things in order (load the model, transcribe, create or truncate the
  destination, write it), and changes nothing else.
\<close>

lemma run_trace:
  fixes wh :: "('h, 'v, 'x) whisper"
  assumes "transcribir_mp3_a_txt wh w ruta_mp3 ruta_txt modelo lenguaje opciones = (r, w')"
  shows "\<exists>ds n t bs c.
           cwd w' = cwd w \<and> refuses w' = refuses w \<and> n \<le> 4 \<and>
           (\<forall>d\<in>set ds. files w d = None) \<and> (3 \<le> n \<longrightarrow> t \<notin> set ds) \<and>
           events w' =
             events w @ map Ev_mkdir ds @
             take n [Ev_load_model modelo, Ev_transcribe (str_of ruta_mp3) lenguaje opciones,
                     Ev_creat t, Ev_write t bs] \<and>
           (\<forall>l. files w' l =
              (if 3 \<le> n \<and> l = t then Some (File (if n = 4 then bs else c))
               else if l \<in> set ds then Some Dir else files w l)) \<and>
           (0 < n \<longrightarrow>
              (\<exists>dest. destino ruta_mp3 ruta_txt = Inr dest \<and> creatable w (parent dest) \<and>
                 (\<forall>d\<in>set (prefix_locs w (parent dest)). files w' d = Some Dir))) \<and>
           (r = Inl (ValueError msg_vacia) \<longrightarrow> n = 2) \<and>
           (\<forall>x. r = Inl (External x) \<longrightarrow> n = 1 \<or> n = 2) \<and>
           (\<forall>p. r = Inr p \<longrightarrow> n = 4)"
    (is "\<exists>ds n t bs c. ?shape ds n t bs c")
proof -
  note run = assms [unfolded transcribir_mp3_a_txt_def Let_def]
  have stop: ?thesis if "w' = w" and "\<forall>x. r \<noteq> Inl (External x)" and "r \<noteq> Inl (ValueError msg_vacia)"
    and "\<forall>p. r \<noteq> Inr p"
  proof -
    have "?shape [] 0 [] [] []"
      using that by simp
    then show ?thesis by (intro exI)
  qed
  show ?thesis
  proof (cases "is_file w ruta_mp3 = Inr True")
    case False
    with run show ?thesis
      by (intro stop) (auto split: sum.splits if_splits)
  next
    case src: True
    show ?thesis
    proof (cases "destino ruta_mp3 ruta_txt")
      case (Inl pe)
      with run src show ?thesis
        by (intro stop) auto
    next
      case (Inr dest)
      obtain x1 w1 where m: "mkdir w (parent dest) True True = (x1, w1)"
        by (metis surj_pair)
      from mkdir_made_dirs [OF m] obtain ds where ds: "made_dirs w ds w1"
        by blast
      then have ds_files: "\<forall>l. files w1 l = (if l \<in> set ds then Some Dir else files w l)"
        and ds_none: "\<forall>d\<in>set ds. files w d = None"
        and ds_cwd: "cwd w1 = cwd w" "refuses w1 = refuses w"
        and ds_ev: "events w1 = events w @ map Ev_mkdir ds"
        by (simp_all add: made_dirs_def)
      show ?thesis
      proof (cases x1)
        case (Inl e)
        with run src Inr m have "r = Inl (raised e)" "w' = w1"
          by simp_all
        then have "?shape ds 0 [] [] []"
          using ds_files ds_none ds_cwd ds_ev by (simp add: raised_other)
        then show ?thesis by (intro exI)
      next
        case ok: (Inr u)
        with m have m': "mkdir w (parent dest) True True = (Inr u, w1)"
          by simp
        from mkdir_Inr_is_dir [OF m']
        have dirs1: "\<forall>d\<in>set (prefix_locs w (parent dest)). files w1 d = Some Dir"
          by (simp add: is_dir_iff made_dirs_prefix_locs [OF ds])
        have cr: "creatable w (parent dest)"
          using m' ok mkdir_ok_iff_creatable by (cases u) blast
        let ?w2 = "log (Ev_load_model modelo) w1"
        let ?w3 = "log (Ev_transcribe (str_of ruta_mp3) lenguaje opciones) ?w2"
        have one: ?thesis if "w' = ?w2" and "r \<noteq> Inl (ValueError msg_vacia)" and "\<forall>p. r \<noteq> Inr p"
        proof -
          have "?shape ds 1 [] [] []"
            using that ds_files ds_none ds_cwd ds_ev dirs1 cr Inr by simp
          then show ?thesis by (intro exI)
        qed
        have two: ?thesis if "w' = ?w3" and "\<forall>p. r \<noteq> Inr p"
        proof -
          have "?shape ds 2 [] [] []"
            using that ds_files ds_none ds_cwd ds_ev dirs1 cr Inr by simp
          then show ?thesis by (intro exI)
        qed
        show ?thesis
        proof (cases "load_model wh modelo")
          case (Inl x)
          with run src Inr m' show ?thesis
            by (intro one) auto
        next
          case load: (Inr h)
          show ?thesis
          proof (cases "''language'' \<in> fst ` set opciones")
            case True
            with run src Inr m' load show ?thesis
              by (intro one) auto
          next
            case kw: False
            show ?thesis
            proof (cases "transcribe wh h (str_of ruta_mp3) lenguaje opciones")
              case (Inl x)
              with run src \<open>destino ruta_mp3 ruta_txt = Inr dest\<close> m' load kw show ?thesis
                by (intro two) auto
            next
              case tr: (Inr resultado)
              show ?thesis
              proof (cases "texto_de resultado = []")
                case True
                with run src \<open>destino ruta_mp3 ruta_txt = Inr dest\<close> m' load kw tr show ?thesis
                  by (intro two) auto
              next
                case ne: False
                obtain x4 w4
                  where wt: "write_text ?w3 dest (texto_de resultado) = (x4 :: 'x error + nat, w4)"
                  by (metis surj_pair)
                with run src \<open>destino ruta_mp3 ruta_txt = Inr dest\<close> m' load kw tr ne
                have r: "r = (case x4 of Inl e \<Rightarrow> Inl e | Inr _ \<Rightarrow> Inr (resolve w4 dest))"
                  and w': "w' = w4"
                  by (auto split: sum.splits)
                from write_text_trace [OF wt] obtain k t bs c
                  where k: "k \<le> 2" and cwd4: "cwd w4 = cwd ?w3" "refuses w4 = refuses ?w3"
                    and ev4: "events w4 = events ?w3 @ take k [Ev_creat t, Ev_write t bs]"
                    and fl4: "\<forall>l. files w4 l =
                        (if 0 < k \<and> l = t then Some (File (if k = 2 then bs else c))
                         else files ?w3 l)"
                    and op: "0 < k \<longrightarrow> lookup ?w3 dest = Inr t \<and> files ?w3 t \<noteq> Some Dir"
                    and x4: "x4 \<noteq> Inl (ValueError msg_vacia)" "\<forall>e. x4 \<noteq> Inl (External e)"
                      "(\<exists>n. x4 = Inr n) \<longrightarrow> k = 2"
                  by blast
                have fresh: "t \<notin> set ds" and away: "t \<notin> set (prefix_locs w (parent dest))"
                  if "0 < k"
                  using that op ds_files dirs1 by auto
                have rk: "r \<noteq> Inl (ValueError msg_vacia)" "\<forall>e. r \<noteq> Inl (External e)"
                  "\<forall>p. r = Inr p \<longrightarrow> k = 2"
                  using x4 unfolding r by (cases x4; simp)+
                from k have "k = 0 \<or> k = 1 \<or> k = 2"
                  by auto
                then have "?shape ds (2 + k) t bs c"
                  using w' cwd4 ev4 fl4 rk fresh away ds_files ds_none ds_cwd ds_ev dirs1 cr
                    \<open>destino ruta_mp3 ruta_txt = Inr dest\<close>
                  by (elim disjE) auto
                then show ?thesis by (intro exI)
              qed
            qed
          qed
        qed
      qed
    qed
  qed
qed

lemma lower_char_eq_iff:
  assumes "(97::nat) \<le> of_char d" and "of_char d \<le> (122::nat)"
  shows "lower_char c = d \<longleftrightarrow> c = d \<or> of_char c + (32::nat) = of_char d"
proof -
  let ?n = "of_char c :: nat"
  have lt: "?n < 256"
    by simp
  show ?thesis
  proof (cases "(65 \<le> ?n \<and> ?n \<le> 90) \<or> (192 \<le> ?n \<and> ?n \<le> 222 \<and> ?n \<noteq> 215)")
    case True
    then have lc: "lower_char c = char_of (?n + 32)"
      by (simp add: lower_char_def)
    have small: "?n + 32 < 256"
      using True by auto
    have "char_of (?n + 32) = d \<longleftrightarrow> ?n + 32 = of_char d"
    proof
      assume "char_of (?n + 32) = d"
      then have "of_char (char_of (?n + 32) :: char) = (of_char d :: nat)"
        by simp
      with small show "?n + 32 = of_char d"
        by (simp add: take_bit_eq_mod)
    next
      assume "?n + 32 = of_char d"
      then have "char_of (?n + 32) = (char_of (of_char d :: nat) :: char)"
        by simp
      then show "char_of (?n + 32) = d"
        by simp
    qed
    moreover have "c \<noteq> d"
      using True assms by auto
    ultimately show ?thesis
      using lc by simp
  next
    case False
    then have lc: "lower_char c = c"
      unfolding lower_char_def Let_def by (simp only: if_False)
    have "?n + 32 \<noteq> of_char d"
      using False assms by auto
    with lc show ?thesis
      by simp
  qed
qed

lemma lower_char_none:
  "lower_char c = CHR ''n'' \<longleftrightarrow> c = CHR ''n'' \<or> c = CHR ''N''"
  "lower_char c = CHR ''o'' \<longleftrightarrow> c = CHR ''o'' \<or> c = CHR ''O''"
  "lower_char c = CHR ''e'' \<longleftrightarrow> c = CHR ''e'' \<or> c = CHR ''E''"
proof -
  have up: "(of_char c + (32::nat) = of_char d) = (c = D)"
    if "(of_char d :: nat) = of_char D + 32" for d D :: char
  proof -
    have "(of_char c + (32::nat) = of_char d) = (of_char c = (of_char D :: nat))"
      unfolding that by (rule add_right_cancel)
    then show ?thesis
      by (simp only: of_char_eq_iff)
  qed
  have "lower_char c = CHR ''n'' \<longleftrightarrow> c = CHR ''n'' \<or> of_char c + (32::nat) = of_char (CHR ''n'')"
    by (rule lower_char_eq_iff) simp_all
  also have "(of_char c + (32::nat) = of_char (CHR ''n'')) = (c = CHR ''N'')"
    by (rule up) simp
  finally show "lower_char c = CHR ''n'' \<longleftrightarrow> c = CHR ''n'' \<or> c = CHR ''N''" .
  have "lower_char c = CHR ''o'' \<longleftrightarrow> c = CHR ''o'' \<or> of_char c + (32::nat) = of_char (CHR ''o'')"
    by (rule lower_char_eq_iff) simp_all
  also have "(of_char c + (32::nat) = of_char (CHR ''o'')) = (c = CHR ''O'')"
    by (rule up) simp
  finally show "lower_char c = CHR ''o'' \<longleftrightarrow> c = CHR ''o'' \<or> c = CHR ''O''" .
  have "lower_char c = CHR ''e'' \<longleftrightarrow> c = CHR ''e'' \<or> of_char c + (32::nat) = of_char (CHR ''e'')"
    by (rule lower_char_eq_iff) simp_all
  also have "(of_char c + (32::nat) = of_char (CHR ''e'')) = (c = CHR ''E'')"
    by (rule up) simp
  finally show "lower_char c = CHR ''e'' \<longleftrightarrow> c = CHR ''e'' \<or> c = CHR ''E''" .
qed

lemma lower_none_iff: "lower s = ''none'' \<longleftrightarrow> s \<in> set none_any_case"
proof
  assume l: "lower s = ''none''"
  then have "length (lower s) = length ''none''"
    by (rule arg_cong)
  then have "length s = 4"
    by (simp add: lower_def)
  then obtain a b c d where s: "s = [a, b, c, d]"
    by (auto simp: length_Suc_conv numeral_eq_Suc)
  with l have "(a = CHR ''n'' \<or> a = CHR ''N'') \<and> (b = CHR ''o'' \<or> b = CHR ''O'') \<and>
      (c = CHR ''n'' \<or> c = CHR ''N'') \<and> (d = CHR ''e'' \<or> d = CHR ''E'')"
    by (simp add: lower_def lower_char_none)
  then show "s \<in> set none_any_case"
    unfolding s by (elim conjE disjE; simp add: none_any_case_def)
next
  assume "s \<in> set none_any_case"
  then have "s = ''none'' \<or> s = ''nonE'' \<or> s = ''noNe'' \<or> s = ''noNE'' \<or>
      s = ''nOne'' \<or> s = ''nOnE'' \<or> s = ''nONe'' \<or> s = ''nONE'' \<or>
      s = ''None'' \<or> s = ''NonE'' \<or> s = ''NoNe'' \<or> s = ''NoNE'' \<or>
      s = ''NOne'' \<or> s = ''NOnE'' \<or> s = ''NONe'' \<or> s = ''NONE''"
    by (simp add: none_any_case_def)
  then show "lower s = ''none''"
    by (elim disjE; simp add: lower_def lower_char_none)
qed

text \<open>
  A run whose source is a regular file, whose destination's parent can be made a directory
  and whose model loads invokes the model, with the source path, the hint and the options it
  was given; what the invocation raises is what the run raises.
\<close>

lemma run_invokes:
  fixes wh :: "('h, 'v, 'x) whisper"
  assumes src: "is_file w ruta_mp3 = Inr True"
    and dest: "destino ruta_mp3 ruta_txt = Inr dest"
    and cr: "creatable w (parent dest)"
    and load: "load_model wh modelo = Inr h"
    and kw: "''language'' \<notin> fst ` set opciones"
  shows "\<exists>ds rest.
           events (snd (transcribir_mp3_a_txt wh w ruta_mp3 ruta_txt modelo lenguaje opciones)) =
             events w @ map Ev_mkdir ds @
             [Ev_load_model modelo, Ev_transcribe (str_of ruta_mp3) lenguaje opciones] @ rest"
    and "transcribe wh h (str_of ruta_mp3) lenguaje opciones = Inl x \<Longrightarrow>
           fst (transcribir_mp3_a_txt wh w ruta_mp3 ruta_txt modelo lenguaje opciones) =
             Inl (External x)"
proof -
  from mkdir_parents_ok [OF cr] obtain w1
    where w1: "mkdir w (parent dest) True True = (Inr (), w1)"
    by blast
  from mkdir_made_dirs [OF w1] obtain ds where ds: "made_dirs w ds w1"
    by blast
  let ?w3 = "log (Ev_transcribe (str_of ruta_mp3) lenguaje opciones) (log (Ev_load_model modelo) w1)"
  let ?run = "transcribir_mp3_a_txt wh w ruta_mp3 ruta_txt modelo lenguaje opciones"
  show "fst ?run = Inl (External x)"
    if "transcribe wh h (str_of ruta_mp3) lenguaje opciones = Inl x"
    using that src dest w1 load kw by (simp add: transcribir_mp3_a_txt_def)
  have "\<exists>rest. events (snd ?run) = events ?w3 @ rest"
  proof (cases "transcribe wh h (str_of ruta_mp3) lenguaje opciones")
    case (Inl x)
    then have "snd ?run = ?w3"
      using src dest w1 load kw by (simp add: transcribir_mp3_a_txt_def)
    then show ?thesis by simp
  next
    case (Inr resultado)
    show ?thesis
    proof (cases "texto_de resultado = []")
      case True
      with Inr have "snd ?run = ?w3"
        using src dest w1 load kw by (simp add: transcribir_mp3_a_txt_def)
      then show ?thesis by simp
    next
      case False
      obtain x4 w4
        where wt: "write_text ?w3 dest (texto_de resultado) = (x4 :: 'x error + nat, w4)"
        by (metis surj_pair)
      with Inr False have "snd ?run = w4"
        using src dest w1 load kw
        by (cases x4) (simp_all add: transcribir_mp3_a_txt_def)
      moreover from write_text_trace [OF wt] obtain m t bs
        where "events w4 = events ?w3 @ take m [Ev_creat t, Ev_write t bs]"
        by blast
      ultimately show ?thesis by simp
    qed
  qed
  then obtain rest where "events (snd ?run) = events ?w3 @ rest"
    by blast
  then have "events (snd ?run) =
      events w @ map Ev_mkdir ds @
      [Ev_load_model modelo, Ev_transcribe (str_of ruta_mp3) lenguaje opciones] @ rest"
    by (simp add: made_dirs_events [OF ds])
  then show "\<exists>ds rest. events (snd ?run) =
      events w @ map Ev_mkdir ds @
      [Ev_load_model modelo, Ev_transcribe (str_of ruta_mp3) lenguaje opciones] @ rest"
    by blast
qed

text \<open>The command line adds to the function's run, at most, the line it prints.\<close>

lemma main_run:
  fixes wh :: "('h, 'v, 'x) whisper"
  shows "\<exists>tail. events (snd (main wh w a)) =
           events (snd (transcribir_mp3_a_txt wh w (args_audio (parse_args a))
             (args_salida (parse_args a)) (args_modelo (parse_args a))
             (lenguaje_cli (parse_args a)) [])) @ tail \<and>
           (\<forall>p h k. Ev_transcribe p h k \<notin> set tail)"
    and "fst (transcribir_mp3_a_txt wh w (args_audio (parse_args a))
             (args_salida (parse_args a)) (args_modelo (parse_args a))
             (lenguaje_cli (parse_args a)) []) = Inl e \<Longrightarrow> fst (main wh w a) = Inl e"
proof -
  let ?run = "transcribir_mp3_a_txt wh w (args_audio (parse_args a))
     (args_salida (parse_args a)) (args_modelo (parse_args a)) (lenguaje_cli (parse_args a)) []"
  obtain r w1 where run: "?run = (r, w1)"
    by (metis surj_pair)
  show "\<exists>tail. events (snd (main wh w a)) = events (snd ?run) @ tail \<and>
      (\<forall>p h k. Ev_transcribe p h k \<notin> set tail)"
    unfolding run by (cases r) (simp_all add: main_def Let_def run)
  show "fst (main wh w a) = Inl e" if "fst ?run = Inl e"
    using that unfolding run by (simp add: main_def Let_def run)
qed

text \<open>The errors a walk can end in.\<close>

lemma lookup_errors:
  assumes "lookup w p = Inl e"
  shows "e = ENOENT \<or> e = ENOTDIR \<or> e = ENAMETOOLONG \<or> (\<exists>x. e = Refused x)"
proof (cases "PATH_MAX \<le> fsencode_len (str_of p)")
  case True
  with assms show ?thesis
    by (simp add: lookup_def)
next
  case False
  with assms have "namei (files w) (refuses w) (start w p) (parts p) = Inl e"
    by (simp add: lookup_def)
  from namei_Inl [OF this] show ?thesis
    by blast
qed

section \<open>The claims\<close>




text \<open>
  C2, as amended: when the source path is not an existing regular file, the function fails
  at once: the world it leaves is the world it found, so no model was loaded or invoked, no
  file was created or modified and no directory was created. The failure is the
  FileNotFoundError of line 47, except where the system refuses to examine the path for
  another reason than a component that is missing or not a directory: then \<^verbatim>\<open>is_file\<close> raises
  at line 46, and the failure is that OSError, which is the error of the walk along the
  path (a name that is too long, a path that is too long, or a refusal).
\<close>

theorem missing_source_fails_first:
  "is_file w ruta_mp3 \<noteq> Inr True \<Longrightarrow>
     transcribir_mp3_a_txt wh w ruta_mp3 ruta_txt modelo lenguaje opciones =
       (Inl (case is_file w ruta_mp3 of
               Inl e \<Rightarrow> OSError e
             | Inr found \<Rightarrow> FileNotFoundError (msg_no_encontrado @ str_of ruta_mp3)), w) \<and>
     (\<forall>e. is_file w ruta_mp3 = Inl e \<longrightarrow>
        \<not> null_in ruta_mp3 \<and> lookup w ruta_mp3 = Inl e \<and>
        (e = ENAMETOOLONG \<or> (\<exists>x. e = Refused x)))"
proof
  assume "is_file w ruta_mp3 \<noteq> Inr True"
  then show "transcribir_mp3_a_txt wh w ruta_mp3 ruta_txt modelo lenguaje opciones =
       (Inl (case is_file w ruta_mp3 of
               Inl e \<Rightarrow> OSError e
             | Inr found \<Rightarrow> FileNotFoundError (msg_no_encontrado @ str_of ruta_mp3)), w)"
    by (cases "is_file w ruta_mp3") (simp_all add: transcribir_mp3_a_txt_def)
next
  show "\<forall>e. is_file w ruta_mp3 = Inl e \<longrightarrow>
        \<not> null_in ruta_mp3 \<and> lookup w ruta_mp3 = Inl e \<and>
        (e = ENAMETOOLONG \<or> (\<exists>x. e = Refused x))"
  proof (intro allI impI)
    fix e assume "is_file w ruta_mp3 = Inl e"
    then have nn: "\<not> null_in ruta_mp3" and lk: "lookup w ruta_mp3 = Inl e"
      and ni: "\<not> ignore_error e"
      by (auto simp: is_file_def stat_def ignore_error_def
            split: if_splits sum.splits option.splits node.splits call_error.splits)
    from lookup_errors [OF lk] ni have "e = ENAMETOOLONG \<or> (\<exists>x. e = Refused x)"
      by (auto simp: ignore_error_def)
    with nn lk show "\<not> null_in ruta_mp3 \<and> lookup w ruta_mp3 = Inl e \<and>
        (e = ENAMETOOLONG \<or> (\<exists>x. e = Refused x))"
      by blast
  qed
qed

theorem missing_source_fails_first_witness:
  "is_file ej_mundo (Path ''audio/otra.mp3'') = Inr False \<and>
   transcribir_mp3_a_txt (ej_whisper (Inr Map.empty)) ej_mundo (Path ''audio/otra.mp3'') None
       ''base'' (Some ''es'') [] =
     (Inl (FileNotFoundError (msg_no_encontrado @ ''audio/otra.mp3'')), ej_mundo) \<and>
   is_file ej_mundo (Path ''salida'') = Inr False \<and>
   transcribir_mp3_a_txt (ej_whisper (Inr Map.empty)) ej_mundo (Path ''salida'') None
       ''base'' (Some ''es'') [] =
     (Inl (FileNotFoundError (msg_no_encontrado @ ''salida'')), ej_mundo) \<and>
   is_file ej_mundo (Path (replicate 256 (CHR ''a''))) = Inl ENAMETOOLONG \<and>
   transcribir_mp3_a_txt (ej_whisper (Inr Map.empty)) ej_mundo (Path (replicate 256 (CHR ''a'')))
       None ''base'' (Some ''es'') [] =
     (Inl (OSError ENAMETOOLONG), ej_mundo)"
proof -
  have missing: "is_file ej_mundo (Path ''audio/otra.mp3'') = Inr False"
    and dir: "is_file ej_mundo (Path ''salida'') = Inr False"
    by (simp_all add: ej_path_simps ej_fs_simps)
  have s: "str_of (Path ''audio/otra.mp3'') = ''audio/otra.mp3''"
    "str_of (Path ''salida'') = ''salida''"
    by (simp_all add: ej_path_simps)
  have a: "transcribir_mp3_a_txt (ej_whisper (Inr Map.empty)) ej_mundo (Path ''audio/otra.mp3'')
       None ''base'' (Some ''es'') [] =
     (Inl (FileNotFoundError (msg_no_encontrado @ ''audio/otra.mp3'')), ej_mundo)"
    using missing_source_fails_first [of ej_mundo "Path ''audio/otra.mp3''"
        "ej_whisper (Inr Map.empty)" None "''base''" "Some ''es''" "[]"]
    by (simp add: missing s)
  have b: "transcribir_mp3_a_txt (ej_whisper (Inr Map.empty)) ej_mundo (Path ''salida'')
       None ''base'' (Some ''es'') [] =
     (Inl (FileNotFoundError (msg_no_encontrado @ ''salida'')), ej_mundo)"
    using missing_source_fails_first [of ej_mundo "Path ''salida''"
        "ej_whisper (Inr Map.empty)" None "''base''" "Some ''es''" "[]"]
    by (simp add: dir s)
  have long: "is_file ej_mundo (Path (replicate 256 (CHR ''a''))) = Inl ENAMETOOLONG"
    by (simp add: is_file_def stat_def ej_largo ignore_error_def)
  have c: "transcribir_mp3_a_txt (ej_whisper (Inr Map.empty)) ej_mundo
       (Path (replicate 256 (CHR ''a''))) None ''base'' (Some ''es'') [] =
     (Inl (OSError ENAMETOOLONG), ej_mundo)"
    using missing_source_fails_first [of ej_mundo "Path (replicate 256 (CHR ''a''))"
        "ej_whisper (Inr Map.empty)" None "''base''" "Some ''es''" "[]"]
    by (simp add: long)
  show ?thesis
    by (intro conjI; fact missing a dir b long c)
qed

text \<open>
  C2 as stated fails for a source whose name is too long: no node lies where the path of
  256 letters leads, so the source is not an existing regular file, yet the run does not
  end in the not-found error: \<^verbatim>\<open>is_file\<close> raises the OSError of errno ENAMETOOLONG.
\<close>

theorem long_source_name_counterexample:
  "files ej_mundo (cwd ej_mundo @ [replicate 256 (CHR ''a'')]) = None \<and>
   stat ej_mundo (Path (replicate 256 (CHR ''a''))) = Inl (Os ENAMETOOLONG) \<and>
   transcribir_mp3_a_txt (ej_whisper (Inr [''text'' \<mapsto> ej_texto])) ej_mundo
       (Path (replicate 256 (CHR ''a''))) None ''base'' (Some ''es'') [] =
     (Inl (OSError ENAMETOOLONG), ej_mundo)"
proof -
  have "length (replicate 256 (CHR ''a'')) \<noteq> length ''f''"
    and "length (replicate 256 (CHR ''a'')) \<noteq> length ''audio''"
    and "length (replicate 256 (CHR ''a'')) \<noteq> length ''salida''"
    by simp_all
  then have "replicate 256 (CHR ''a'') \<noteq> ''f''" "replicate 256 (CHR ''a'') \<noteq> ''audio''"
    "replicate 256 (CHR ''a'') \<noteq> ''salida''"
    by (metis, metis, metis)
  then have c1: "files ej_mundo (cwd ej_mundo @ [replicate 256 (CHR ''a'')]) = None"
    by (simp add: ej_mundo_def ej_files_def)
  have c2: "stat ej_mundo (Path (replicate 256 (CHR ''a''))) = Inl (Os ENAMETOOLONG)"
    by (simp add: stat_def ej_largo)
  then have "is_file ej_mundo (Path (replicate 256 (CHR ''a''))) = Inl ENAMETOOLONG"
    by (simp add: is_file_def ignore_error_def)
  then have c3: "transcribir_mp3_a_txt (ej_whisper (Inr [''text'' \<mapsto> ej_texto])) ej_mundo
       (Path (replicate 256 (CHR ''a''))) None ''base'' (Some ''es'') [] =
     (Inl (OSError ENAMETOOLONG), ej_mundo)"
    by (simp add: transcribir_mp3_a_txt_def)
  show ?thesis
    by (intro conjI; fact c1 c2 c3)
qed

text \<open>
  C3: in a run that reaches the model (the source is a regular file, the destination's
  parent can be made a directory, the model loads and is invoked), when the model's text is
  empty or whitespace only, the function raises the ValueError of line 67 and writes
  nothing: every regular file is what it was, and no file was opened or written.
\<close>

theorem whitespace_only_transcript_fails:
  assumes "is_file w ruta_mp3 = Inr True"
    and "destino ruta_mp3 ruta_txt = Inr dest"
    and "creatable w (parent dest)"
    and "load_model wh modelo = Inr h"
    and "''language'' \<notin> fst ` set opciones"
    and "transcribe wh h (str_of ruta_mp3) lenguaje opciones = Inr resultado"
    and "resultado ''text'' = Some t"
    and "list_all isspace t"
  shows "\<exists>w'. transcribir_mp3_a_txt wh w ruta_mp3 ruta_txt modelo lenguaje opciones =
                 (Inl (ValueError msg_vacia), w') \<and>
              (\<forall>l b. (files w' l = Some (File b)) = (files w l = Some (File b))) \<and>
              (\<forall>l. Ev_creat l \<notin> set (new_events w w')) \<and>
              (\<forall>l b. Ev_write l b \<notin> set (new_events w w'))"
proof -
  from mkdir_parents_ok [OF assms(3)] obtain w1
    where w1: "mkdir w (parent dest) True True = (Inr (), w1)"
    by blast
  from mkdir_made_dirs [OF w1] obtain ds where ds: "made_dirs w ds w1"
    by blast
  let ?w' = "log (Ev_transcribe (str_of ruta_mp3) lenguaje opciones) (log (Ev_load_model modelo) w1)"
  have empty: "texto_de resultado = []"
    using assms(7,8) by (simp add: texto_de_def strip_Nil_iff)
  have run: "transcribir_mp3_a_txt wh w ruta_mp3 ruta_txt modelo lenguaje opciones =
      (Inl (ValueError msg_vacia), ?w')"
    using assms(1,2,4,5,6) w1 empty by (simp add: transcribir_mp3_a_txt_def)
  have ev: "new_events w ?w' =
      map Ev_mkdir ds @ [Ev_load_model modelo, Ev_transcribe (str_of ruta_mp3) lenguaje opciones]"
    by (rule new_events_append) (simp add: made_dirs_events [OF ds])
  have "\<forall>l b. (files ?w' l = Some (File b)) = (files w l = Some (File b))"
    by (simp add: made_dirs_regular [OF ds])
  moreover have "\<forall>l. Ev_creat l \<notin> set (new_events w ?w')"
    and "\<forall>l b. Ev_write l b \<notin> set (new_events w ?w')"
    unfolding ev by auto
  ultimately show ?thesis using run by blast
qed

theorem whitespace_only_transcript_fails_witness:
  "is_file ej_mundo (Path ''audio/nota.mp3'') = Inr True \<and>
   list_all isspace [0x20, 0x0A, 0x3000] \<and>
   fst (transcribir_mp3_a_txt (ej_whisper (Inr [''text'' \<mapsto> [0x20, 0x0A, 0x3000]])) ej_mundo
          (Path ''audio/nota.mp3'') None ''base'' (Some ''es'') []) =
     Inl (ValueError msg_vacia)"
proof -
  have ws: "list_all isspace [0x20, 0x0A, 0x3000]"
    by (simp add: isspace_def)
  have "\<exists>w'. transcribir_mp3_a_txt (ej_whisper (Inr [''text'' \<mapsto> [0x20, 0x0A, 0x3000]])) ej_mundo
          (Path ''audio/nota.mp3'') None ''base'' (Some ''es'') [] = (Inl (ValueError msg_vacia), w')"
    using whitespace_only_transcript_fails [of ej_mundo "Path ''audio/nota.mp3''" None
        "Path ''audio/nota.txt''" "ej_whisper (Inr [''text'' \<mapsto> [0x20, 0x0A, 0x3000]])"
        "''base''" "()" "[]" "Some ''es''" "[''text'' \<mapsto> [0x20, 0x0A, 0x3000]]"
        "[0x20, 0x0A, 0x3000]"]
      ej_nota ws
    by auto
  with ej_nota(1) ws show ?thesis by auto
qed




text \<open>
  C5: the path a successful run returns is the destination (given or derived) made absolute
  and resolved: it has a root, no \<^verbatim>\<open>..\<close> is left in it, resolving it again changes nothing,
  and it is the location the destination path leads to, where the transcript now is.
\<close>

theorem returns_resolved_destination:
  fixes wh :: "('h, 'v, 'x) whisper"
  assumes "transcribir_mp3_a_txt wh w ruta_mp3 ruta_txt modelo lenguaje opciones = (Inr r, w')"
    and "''..'' \<notin> set (cwd w)"
  shows "\<exists>dest bs. destino ruta_mp3 ruta_txt = Inr dest \<and> r = resolve w dest \<and>
           absolute r \<and> ''..'' \<notin> set (parts r) \<and> resolve w r = r \<and>
           lookup w' dest = Inr (parts r) \<and> files w' (parts r) = Some (File bs)"
proof -
  from run_Inr_effect [OF assms(1)] obtain dest bs ds
    where dest: "destino ruta_mp3 ruta_txt = Inr dest" and wr: "writable w dest"
      and r: "r = resolve w dest" and cwd: "cwd w' = cwd w" and ref: "refuses w' = refuses w"
      and fl: "\<forall>l. files w' l =
          (if l = parts r then Some (File bs)
           else if l \<in> set ds then Some Dir else files w l)"
      and dirs: "\<forall>d\<in>set (prefix_locs w (parent dest)). files w' d = Some Dir"
    by blast
  have st: "start w' dest = start w dest"
    using cwd by (simp add: start_def)
  then have pl: "prefix_locs w' (parent dest) = prefix_locs w (parent dest)"
    by (simp add: prefix_locs_def)
  have "passable w' dest"
    using wr by (simp add: writable_def Let_def passable_cong [OF cwd ref])
  then have "lookup w' dest = Inr (norm (start w' dest) (parts dest))"
    by (rule lookup_under_dirs) (use dirs pl in simp)
  then have "lookup w' dest = Inr (parts r)"
    by (simp add: r resolve_def st)
  moreover have "absolute r"
    by (simp add: r resolve_def absolute_def)
  moreover have "''..'' \<notin> set (parts r)"
    using assms(2) by (simp add: r resolve_def norm_keeps_no_dotdot start_def)
  moreover have "resolve w r = r"
    unfolding r using assms(2) by (rule resolve_idem)
  moreover from fl have "files w' (parts r) = Some (File bs)"
    by simp
  ultimately show ?thesis
    using dest r by blast
qed

theorem returns_resolved_destination_witness:
  "''..'' \<notin> set (cwd ej_mundo) \<and>
   fst (transcribir_mp3_a_txt (ej_whisper (Inr [''text'' \<mapsto> ej_texto])) ej_mundo
          (Path ''audio/nota.mp3'') (Some (Path ''salida/../out/./result.txt'')) ''base''
          (Some ''es'') []) = Inr (Path ''/home/u/out/result.txt'') \<and>
   destino (Path ''audio/nota.mp3'') (Some (Path ''salida/../out/./result.txt'')) =
     Inr (Path ''salida/../out/result.txt'') \<and>
   resolve ej_mundo (Path ''salida/../out/result.txt'') = Path ''/home/u/out/result.txt'' \<and>
   absolute (Path ''/home/u/out/result.txt'') \<and>
   ''..'' \<notin> set (parts (Path ''/home/u/out/result.txt'')) \<and>
   resolve ej_mundo (Path ''/home/u/out/result.txt'') = Path ''/home/u/out/result.txt''"
proof -
  let ?run = "transcribir_mp3_a_txt (ej_whisper (Inr [''text'' \<mapsto> ej_texto])) ej_mundo
          (Path ''audio/nota.mp3'') (Some (Path ''salida/../out/./result.txt'')) ''base''
          (Some ''es'') [] :: (string error + ppath) \<times> unit world"
  have run: "?run = (Inr (Path ''/home/u/out/result.txt''), snd ?run)"
    by (simp add: ej_run_simps ej_texto_simps(1) utf8_char_def ej_path_simps ej_fs_simps
          ej_pred_simps)
  have cwd: "''..'' \<notin> set (cwd ej_mundo)"
    by (simp add: ej_mundo_def)
  from run have c1: "fst ?run = Inr (Path ''/home/u/out/result.txt'')"
    by (metis fst_conv)
  from returns_resolved_destination [OF run cwd] obtain dest
    where d: "destino (Path ''audio/nota.mp3'') (Some (Path ''salida/../out/./result.txt'')) = Inr dest"
      and c3: "resolve ej_mundo dest = Path ''/home/u/out/result.txt''"
      and c4: "absolute (Path ''/home/u/out/result.txt'')"
      and c5: "''..'' \<notin> set (parts (Path ''/home/u/out/result.txt''))"
      and c6: "resolve ej_mundo (Path ''/home/u/out/result.txt'') = Path ''/home/u/out/result.txt''"
    by metis
  from d have "dest = Path ''salida/../out/result.txt''"
    by (simp add: destino_def Path_def splitroot_def)
  with d c3 have c2: "destino (Path ''audio/nota.mp3'') (Some (Path ''salida/../out/./result.txt'')) =
      Inr (Path ''salida/../out/result.txt'')"
    and c3': "resolve ej_mundo (Path ''salida/../out/result.txt'') = Path ''/home/u/out/result.txt''"
    by simp_all
  show ?thesis
    by (intro conjI; fact cwd c1 c2 c3' c4 c5 c6)
qed




text \<open>
  C7: the command line hands \<^verbatim>\<open>transcribir_mp3_a_txt\<close> no language hint exactly when the word
  given to \<^verbatim>\<open>--lenguaje\<close> (\<^verbatim>\<open>es\<close> when the option is absent) is \<^verbatim>\<open>none\<close> in some letter case,
  and the word itself otherwise. Whenever the run invokes the model, the model receives that
  hint. And the run does invoke the model with that hint (and with the source path and no
  further option) when the source is a regular file, the destination's parent can be made a
  directory and the model loads; what the model raises on that invocation is then the
  outcome of the command.
\<close>

theorem none_means_no_language_hint:
  fixes wh :: "('h, 'v, 'x) whisper"
  shows "lenguaje_cli (parse_args a) =
           (if (case argv_lenguaje a of None \<Rightarrow> ''es'' | Some l \<Rightarrow> l) \<in> set none_any_case then None
            else Some (case argv_lenguaje a of None \<Rightarrow> ''es'' | Some l \<Rightarrow> l)) \<and>
         (\<forall>p h k. Ev_transcribe p h k \<in> set (new_events w (snd (main wh w a))) \<longrightarrow>
            h = lenguaje_cli (parse_args a)) \<and>
         (is_file w (Path (argv_audio a)) = Inr True \<and>
          destino (Path (argv_audio a)) (map_option Path (argv_salida a)) = Inr dest \<and>
          creatable w (parent dest) \<and>
          load_model wh (case argv_modelo a of None \<Rightarrow> ''base'' | Some m \<Rightarrow> m) = Inr h \<longrightarrow>
            Ev_transcribe (str_of (Path (argv_audio a))) (lenguaje_cli (parse_args a)) []
              \<in> set (new_events w (snd (main wh w a))) \<and>
            (\<forall>x. transcribe wh h (str_of (Path (argv_audio a))) (lenguaje_cli (parse_args a)) [] =
                   Inl x \<longrightarrow>
                 fst (main wh w a) = Inl (External x)))"
proof (intro conjI impI)
  show "lenguaje_cli (parse_args a) =
      (if (case argv_lenguaje a of None \<Rightarrow> ''es'' | Some l \<Rightarrow> l) \<in> set none_any_case then None
       else Some (case argv_lenguaje a of None \<Rightarrow> ''es'' | Some l \<Rightarrow> l))"
    by (simp add: lenguaje_cli_def parse_args_def lower_none_iff)
next
  let ?args = "parse_args a"
  obtain r w1 where run: "transcribir_mp3_a_txt wh w (args_audio ?args) (args_salida ?args)
      (args_modelo ?args) (lenguaje_cli ?args) [] = (r, w1)"
    by (metis surj_pair)
  from run_trace [OF run] obtain ds n t bs
    where ev: "events w1 =
        events w @ map Ev_mkdir ds @
        take n [Ev_load_model (args_modelo ?args),
                Ev_transcribe (str_of (args_audio ?args)) (lenguaje_cli ?args) [],
                Ev_creat t, Ev_write t bs]"
    by blast
  let ?rest = "take n [Ev_load_model (args_modelo ?args),
                Ev_transcribe (str_of (args_audio ?args)) (lenguaje_cli ?args) [],
                Ev_creat t, Ev_write t bs]"
  from main_run(1) [of wh w a] obtain tail
    where "events (snd (main wh w a)) = events w1 @ tail"
      and quiet: "\<forall>p h k. Ev_transcribe p h k \<notin> set tail"
    unfolding run by auto
  then have "new_events w (snd (main wh w a)) = map Ev_mkdir ds @ ?rest @ tail"
    by (intro new_events_append) (simp add: ev)
  with quiet show "\<forall>p h k. Ev_transcribe p h k \<in> set (new_events w (snd (main wh w a))) \<longrightarrow>
      h = lenguaje_cli (parse_args a)"
    by (auto dest!: in_set_takeD)
next
  let ?args = "parse_args a"
  let ?run = "transcribir_mp3_a_txt wh w (args_audio ?args) (args_salida ?args)
      (args_modelo ?args) (lenguaje_cli ?args) []"
  assume "is_file w (Path (argv_audio a)) = Inr True \<and>
          destino (Path (argv_audio a)) (map_option Path (argv_salida a)) = Inr dest \<and>
          creatable w (parent dest) \<and>
          load_model wh (case argv_modelo a of None \<Rightarrow> ''base'' | Some m \<Rightarrow> m) = Inr h"
  then have src: "is_file w (args_audio ?args) = Inr True"
    and dest: "destino (args_audio ?args) (args_salida ?args) = Inr dest"
    and cr: "creatable w (parent dest)"
    and load: "load_model wh (args_modelo ?args) = Inr h"
    by (simp_all add: parse_args_def)
  have kw: "''language'' \<notin> fst ` set ([] :: (string \<times> 'v) list)"
    by simp
  have au: "args_audio ?args = Path (argv_audio a)"
    by (simp add: parse_args_def)
  from run_invokes(1) [OF src dest cr load kw, of "lenguaje_cli ?args"] obtain ds rest
    where "events (snd ?run) =
        events w @ map Ev_mkdir ds @
        [Ev_load_model (args_modelo ?args),
         Ev_transcribe (str_of (args_audio ?args)) (lenguaje_cli ?args) []] @ rest"
    by blast
  moreover from main_run(1) [of wh w a] obtain tail
    where "events (snd (main wh w a)) = events (snd ?run) @ tail"
    by blast
  ultimately have "new_events w (snd (main wh w a)) =
      map Ev_mkdir ds @
      [Ev_load_model (args_modelo ?args),
       Ev_transcribe (str_of (args_audio ?args)) (lenguaje_cli ?args) []] @ rest @ tail"
    by (intro new_events_append) simp
  then show "Ev_transcribe (str_of (Path (argv_audio a))) (lenguaje_cli (parse_args a)) []
      \<in> set (new_events w (snd (main wh w a)))"
    by (simp add: au)
  show "\<forall>x. transcribe wh h (str_of (Path (argv_audio a))) (lenguaje_cli (parse_args a)) [] =
      Inl x \<longrightarrow> fst (main wh w a) = Inl (External x)"
  proof (intro allI impI)
    fix x
    assume "transcribe wh h (str_of (Path (argv_audio a))) (lenguaje_cli (parse_args a)) [] = Inl x"
    then have "transcribe wh h (str_of (args_audio ?args)) (lenguaje_cli ?args) [] = Inl x"
      by (simp add: au)
    from run_invokes(2) [OF src dest cr load kw this] have "fst ?run = Inl (External x)" .
    then show "fst (main wh w a) = Inl (External x)"
      by (rule main_run(2))
  qed
qed

theorem none_means_no_language_hint_witness:
  "''NoNe'' \<in> set none_any_case \<and> ''en'' \<notin> set none_any_case \<and>
   lenguaje_cli (parse_args \<lparr>argv_audio = ''audio/nota.mp3'', argv_salida = None,
       argv_modelo = None, argv_lenguaje = Some ''NoNe''\<rparr>) = None \<and>
   lenguaje_cli (parse_args \<lparr>argv_audio = ''audio/nota.mp3'', argv_salida = None,
       argv_modelo = None, argv_lenguaje = Some ''en''\<rparr>) = Some ''en'' \<and>
   lenguaje_cli (parse_args \<lparr>argv_audio = ''audio/nota.mp3'', argv_salida = None,
       argv_modelo = None, argv_lenguaje = None\<rparr>) = Some ''es'' \<and>
   new_events ej_mundo (snd (main (ej_whisper (Inr [''text'' \<mapsto> ej_texto])) ej_mundo
       \<lparr>argv_audio = ''audio/nota.mp3'', argv_salida = None, argv_modelo = None,
        argv_lenguaje = Some ''NoNe''\<rparr>)) =
     [Ev_load_model ''base'', Ev_transcribe ''audio/nota.mp3'' None [],
      Ev_creat [''home'', ''u'', ''audio'', ''nota.txt''],
      Ev_write [''home'', ''u'', ''audio'', ''nota.txt''] ej_bytes,
      Ev_print (msg_guardada @ ''/home/u/audio/nota.txt'')] \<and>
   new_events ej_mundo (snd (main (ej_whisper (Inr [''text'' \<mapsto> ej_texto])) ej_mundo
       \<lparr>argv_audio = ''audio/nota.mp3'', argv_salida = None, argv_modelo = None,
        argv_lenguaje = Some ''en''\<rparr>)) =
     [Ev_load_model ''base'', Ev_transcribe ''audio/nota.mp3'' (Some ''en'') [],
      Ev_creat [''home'', ''u'', ''audio'', ''nota.txt''],
      Ev_write [''home'', ''u'', ''audio'', ''nota.txt''] ej_bytes,
      Ev_print (msg_guardada @ ''/home/u/audio/nota.txt'')] \<and>
   Ev_transcribe ''audio/nota.mp3'' None []
     \<in> set (new_events ej_mundo (snd (main (ej_whisper (Inl ''audio ilegible'')) ej_mundo
         \<lparr>argv_audio = ''audio/nota.mp3'', argv_salida = None, argv_modelo = None,
          argv_lenguaje = Some ''NoNe''\<rparr>))) \<and>
   Ev_transcribe ''audio/nota.mp3'' (Some ''en'') []
     \<in> set (new_events ej_mundo (snd (main (ej_whisper (Inl ''audio ilegible'')) ej_mundo
         \<lparr>argv_audio = ''audio/nota.mp3'', argv_salida = None, argv_modelo = None,
          argv_lenguaje = Some ''en''\<rparr>))) \<and>
   fst (main (ej_whisper (Inl ''audio ilegible'')) ej_mundo
         \<lparr>argv_audio = ''audio/nota.mp3'', argv_salida = None, argv_modelo = None,
          argv_lenguaje = Some ''en''\<rparr>) = Inl (External ''audio ilegible'')"
proof -
  let ?a = "\<lambda>l. \<lparr>argv_audio = ''audio/nota.mp3'', argv_salida = None, argv_modelo = None,
      argv_lenguaje = l\<rparr>"
  let ?wh = "ej_whisper (Inr [''text'' \<mapsto> ej_texto]) :: (unit, unit, string) whisper"
  let ?mudo = "ej_whisper (Inl ''audio ilegible'') :: (unit, unit, string) whisper"
  have c1: "''NoNe'' \<in> set none_any_case" and c2: "''en'' \<notin> set none_any_case"
    by (simp_all add: none_any_case_def)
  from none_means_no_language_hint [of "?a (Some ''NoNe'')" ej_mundo ?wh] c1
  have c3: "lenguaje_cli (parse_args (?a (Some ''NoNe''))) = None"
    by simp
  from none_means_no_language_hint [of "?a (Some ''en'')" ej_mundo ?wh] c2
  have c4: "lenguaje_cli (parse_args (?a (Some ''en''))) = Some ''en''"
    by simp
  from none_means_no_language_hint [of "?a None" ej_mundo ?wh]
  have c5: "lenguaje_cli (parse_args (?a None)) = Some ''es''"
    by (simp add: none_any_case_def)
  have c6: "new_events ej_mundo (snd (main ?wh ej_mundo (?a (Some ''NoNe'')))) =
     [Ev_load_model ''base'', Ev_transcribe ''audio/nota.mp3'' None [],
      Ev_creat [''home'', ''u'', ''audio'', ''nota.txt''],
      Ev_write [''home'', ''u'', ''audio'', ''nota.txt''] ej_bytes,
      Ev_print (msg_guardada @ ''/home/u/audio/nota.txt'')]"
    by (simp add: main_def parse_args_def lenguaje_cli_def lower_none_iff c1 new_events_def
          ej_eval_simps)
  have c7: "new_events ej_mundo (snd (main ?wh ej_mundo (?a (Some ''en'')))) =
     [Ev_load_model ''base'', Ev_transcribe ''audio/nota.mp3'' (Some ''en'') [],
      Ev_creat [''home'', ''u'', ''audio'', ''nota.txt''],
      Ev_write [''home'', ''u'', ''audio'', ''nota.txt''] ej_bytes,
      Ev_print (msg_guardada @ ''/home/u/audio/nota.txt'')]"
    by (simp add: main_def parse_args_def lenguaje_cli_def lower_none_iff c2 new_events_def
          ej_eval_simps)
  have hyp: "is_file ej_mundo (Path (argv_audio (?a l))) = Inr True \<and>
      destino (Path (argv_audio (?a l))) (map_option Path (argv_salida (?a l))) =
        Inr (Path ''audio/nota.txt'') \<and>
      creatable ej_mundo (parent (Path ''audio/nota.txt'')) \<and>
      load_model ?mudo (case argv_modelo (?a l) of None \<Rightarrow> ''base'' | Some m \<Rightarrow> m) = Inr ()"
    for l
    using ej_nota by simp
  have tr: "transcribe ?mudo () p l [] = Inl ''audio ilegible''" for p l
    by simp
  from none_means_no_language_hint [of "?a (Some ''NoNe'')" ej_mundo ?mudo
      "Path ''audio/nota.txt''" "()"] hyp [of "Some ''NoNe''"]
  have c8: "Ev_transcribe ''audio/nota.mp3'' None []
      \<in> set (new_events ej_mundo (snd (main ?mudo ej_mundo (?a (Some ''NoNe'')))))"
    unfolding c3 by (simp add: ej_nota(2))
  from none_means_no_language_hint [of "?a (Some ''en'')" ej_mundo ?mudo
      "Path ''audio/nota.txt''" "()"] hyp [of "Some ''en''"] tr
  have c9: "Ev_transcribe ''audio/nota.mp3'' (Some ''en'') []
      \<in> set (new_events ej_mundo (snd (main ?mudo ej_mundo (?a (Some ''en'')))))"
    and c10: "fst (main ?mudo ej_mundo (?a (Some ''en''))) = Inl (External ''audio ilegible'')"
    unfolding c4 by (simp_all add: ej_nota(2))
  show ?thesis
    by (intro conjI; fact c1 c2 c3 c4 c5 c6 c7 c8 c9 c10)
qed

text \<open>
  C8: in a run that reaches the model (the source is a regular file and the destination's
  parent can be made a directory), what \<^verbatim>\<open>whisper.load_model\<close> or \<^verbatim>\<open>transcribe\<close> raises leaves
  the function as it was raised, and nothing is written: every regular file is what it was,
  and no file was opened or written.
\<close>

theorem model_failure_propagates:
  assumes "is_file w ruta_mp3 = Inr True"
    and "destino ruta_mp3 ruta_txt = Inr dest"
    and "creatable w (parent dest)"
    and "load_model wh modelo = Inl x \<or>
         (\<exists>h. load_model wh modelo = Inr h \<and> ''language'' \<notin> fst ` set opciones \<and>
              transcribe wh h (str_of ruta_mp3) lenguaje opciones = Inl x)"
  shows "\<exists>w'. transcribir_mp3_a_txt wh w ruta_mp3 ruta_txt modelo lenguaje opciones =
                 (Inl (External x), w') \<and>
              (\<forall>l b. (files w' l = Some (File b)) = (files w l = Some (File b))) \<and>
              (\<forall>l. Ev_creat l \<notin> set (new_events w w')) \<and>
              (\<forall>l b. Ev_write l b \<notin> set (new_events w w'))"
proof -
  from mkdir_parents_ok [OF assms(3)] obtain w1
    where w1: "mkdir w (parent dest) True True = (Inr (), w1)"
    by blast
  from mkdir_made_dirs [OF w1] obtain ds where ds: "made_dirs w ds w1"
    by blast
  let ?w2 = "log (Ev_load_model modelo) w1"
  let ?w3 = "log (Ev_transcribe (str_of ruta_mp3) lenguaje opciones) ?w2"
  have quiet: "(\<forall>l b. (files w' l = Some (File b)) = (files w l = Some (File b))) \<and>
      (\<forall>l. Ev_creat l \<notin> set (new_events w w')) \<and>
      (\<forall>l b. Ev_write l b \<notin> set (new_events w w'))"
    if "w' = ?w2 \<or> w' = ?w3" for w'
  proof -
    have "new_events w ?w2 = map Ev_mkdir ds @ [Ev_load_model modelo]"
      and "new_events w ?w3 =
        map Ev_mkdir ds @ [Ev_load_model modelo, Ev_transcribe (str_of ruta_mp3) lenguaje opciones]"
      by (rule new_events_append, simp add: made_dirs_events [OF ds])+
    with that show ?thesis
      by (auto simp: made_dirs_regular [OF ds])
  qed
  from assms(4) show ?thesis
  proof
    assume "load_model wh modelo = Inl x"
    then have "transcribir_mp3_a_txt wh w ruta_mp3 ruta_txt modelo lenguaje opciones =
        (Inl (External x), ?w2)"
      using assms(1,2) w1 by (simp add: transcribir_mp3_a_txt_def)
    with quiet [of ?w2] show ?thesis by blast
  next
    assume "\<exists>h. load_model wh modelo = Inr h \<and> ''language'' \<notin> fst ` set opciones \<and>
              transcribe wh h (str_of ruta_mp3) lenguaje opciones = Inl x"
    then have "transcribir_mp3_a_txt wh w ruta_mp3 ruta_txt modelo lenguaje opciones =
        (Inl (External x), ?w3)"
      using assms(1,2) w1 by (auto simp: transcribir_mp3_a_txt_def)
    with quiet [of ?w3] show ?thesis by blast
  qed
qed

theorem model_failure_propagates_witness:
  "is_file ej_mundo (Path ''audio/nota.mp3'') = Inr True \<and>
   fst (transcribir_mp3_a_txt ej_whisper_sin_modelo ej_mundo
          (Path ''audio/nota.mp3'') None ''enorme'' (Some ''es'') []) =
     Inl (External ''modelo desconocido: enorme'') \<and>
   fst (transcribir_mp3_a_txt (ej_whisper (Inl ''audio ilegible'')) ej_mundo
          (Path ''audio/nota.mp3'') (Some (Path ''salida/nueva/nota.txt'')) ''base'' None []) =
     Inl (External ''audio ilegible'')"
proof -
  have a: "load_model ej_whisper_sin_modelo ''enorme'' = Inl ''modelo desconocido: enorme''"
    by (simp add: ej_whisper_sin_modelo_def)
  have b: "destino (Path ''audio/nota.mp3'') (Some (Path ''salida/nueva/nota.txt'')) =
      Inr (Path ''salida/nueva/nota.txt'')"
    by (simp add: destino_def)
  have c: "creatable ej_mundo (parent (Path ''salida/nueva/nota.txt''))"
    by (simp add: ej_path_simps ej_fs_simps ej_pred_simps upt_rec)
  from ej_nota a
    model_failure_propagates [of ej_mundo "Path ''audio/nota.mp3''" None
      "Path ''audio/nota.txt''" ej_whisper_sin_modelo "''enorme''" "''modelo desconocido: enorme''"
      "[]" "Some ''es''"]
  have "fst (transcribir_mp3_a_txt ej_whisper_sin_modelo ej_mundo
          (Path ''audio/nota.mp3'') None ''enorme'' (Some ''es'') []) =
     Inl (External ''modelo desconocido: enorme'')"
    by auto
  moreover from ej_nota(1) b c
    model_failure_propagates [of ej_mundo "Path ''audio/nota.mp3''"
      "Some (Path ''salida/nueva/nota.txt'')" "Path ''salida/nueva/nota.txt''"
      "ej_whisper (Inl ''audio ilegible'')" "''base''" "''audio ilegible''" "[]" None]
  have "fst (transcribir_mp3_a_txt (ej_whisper (Inl ''audio ilegible'')) ej_mundo
          (Path ''audio/nota.mp3'') (Some (Path ''salida/nueva/nota.txt'')) ''base'' None []) =
     Inl (External ''audio ilegible'')"
    by auto
  ultimately show ?thesis
    using ej_nota(1) by simp
qed

text \<open>
  C9: in a run that reaches the model (the source is a regular file, the destination's
  parent can be made a directory, the model loads and is invoked), when the result
  dictionary has no \<^verbatim>\<open>text\<close> key, \<^verbatim>\<open>get\<close> supplies the empty string, and the function raises the
  same ValueError as for a blank transcript, not a KeyError.
\<close>

theorem missing_text_key_is_empty_transcript:
  assumes "is_file w ruta_mp3 = Inr True"
    and "destino ruta_mp3 ruta_txt = Inr dest"
    and "creatable w (parent dest)"
    and "load_model wh modelo = Inr h"
    and "''language'' \<notin> fst ` set opciones"
    and "transcribe wh h (str_of ruta_mp3) lenguaje opciones = Inr resultado"
    and "resultado ''text'' = None"
  shows "fst (transcribir_mp3_a_txt wh w ruta_mp3 ruta_txt modelo lenguaje opciones) =
           Inl (ValueError msg_vacia) \<and>
         transcribir_mp3_a_txt wh w ruta_mp3 ruta_txt modelo lenguaje opciones =
           transcribir_mp3_a_txt (wh\<lparr>transcribe := \<lambda>h a l k. Inr (resultado(''text'' \<mapsto> []))\<rparr>)
             w ruta_mp3 ruta_txt modelo lenguaje opciones"
proof -
  from mkdir_parents_ok [OF assms(3)] obtain w1
    where w1: "mkdir w (parent dest) True True = (Inr (), w1)"
    by blast
  have "texto_de resultado = []" and "texto_de (resultado(''text'' \<mapsto> [])) = []"
    using assms(7) by (simp_all add: texto_de_def strip_def)
  then show ?thesis
    using assms(1,2,4,5,6) w1 by (simp add: transcribir_mp3_a_txt_def)
qed

theorem missing_text_key_is_empty_transcript_witness:
  "is_file ej_mundo (Path ''audio/nota.mp3'') = Inr True \<and>
   fst (transcribir_mp3_a_txt (ej_whisper (Inr [''language'' \<mapsto> [0x65, 0x73]])) ej_mundo
          (Path ''audio/nota.mp3'') None ''base'' (Some ''es'') []) =
     Inl (ValueError msg_vacia)"
proof -
  let ?wh = "ej_whisper (Inr [''language'' \<mapsto> [0x65, 0x73]])"
  have "fst (transcribir_mp3_a_txt ?wh ej_mundo (Path ''audio/nota.mp3'') None ''base''
          (Some ''es'') []) = Inl (ValueError msg_vacia) \<and>
        transcribir_mp3_a_txt ?wh ej_mundo (Path ''audio/nota.mp3'') None ''base'' (Some ''es'') [] =
        transcribir_mp3_a_txt
          (?wh\<lparr>transcribe := \<lambda>h a l k. Inr ([''language'' \<mapsto> [0x65, 0x73]](''text'' \<mapsto> []))\<rparr>)
          ej_mundo (Path ''audio/nota.mp3'') None ''base'' (Some ''es'') []"
    by (rule missing_text_key_is_empty_transcript [of ej_mundo "Path ''audio/nota.mp3''" None
          "Path ''audio/nota.txt''" ?wh "''base''" "()" "[]" "Some ''es''"
          "[''language'' \<mapsto> [0x65, 0x73]]"])
       (use ej_nota in simp_all)
  then show ?thesis
    using ej_nota(1) by blast
qed



end
